theory Spec2Isabelle
  imports Main "HOL-Library.Sublist"
begin

section \<open>Runtime failures\<close>

text \<open>
  A Go panic or a call of \<open>log.Fatal\<close> ends the run. Every function of the model that
  can end that way returns \<open>panic + 'a\<close>, with \<open>Inl\<close> naming the failure.
\<close>

datatype panic =
    IndexOutOfRange
  | SliceOutOfRange
  | NumError
  | FormatError

section \<open>genfft.go: the expression tree\<close>

text \<open>
  \<open>type Expression struct { Op string; Lit string; OpIdx int; Expr []*Expression }\<close>.
  The zero value is \<open>Expression [] [] 0 []\<close>, which is also what \<open>new(Expression)\<close> points to.
\<close>

datatype Expression =
  Expression (Op: string) (Lit: string) (OpIdx: nat) (Expr: "Expression list")

definition new_Expression :: Expression where
  "new_Expression = Expression [] [] 0 []"

text \<open>\<open>IsUnary\<close>: exactly one operand.\<close>

definition IsUnary :: "Expression \<Rightarrow> bool" where
  "IsUnary e = (length (Expr e) = 1)"

subsection \<open>Rendering: \<open>stringHelper\<close>\<close>

text \<open>
  \<open>wrap depth body\<close> is the effect of the opening parenthesis written when
  \<open>depth > 1\<close> and of the deferred closing one.
\<close>

definition wrap :: "nat \<Rightarrow> string \<Rightarrow> string" where
  "wrap depth body = (if depth > 1 then ''('' @ body @ '')'' else body)"

text \<open>
  The operator that is printed: \<open>=\<close> becomes \<open>:=\<close> when the first operand's literal
  starts with \<open>T\<close>. The receiver is a value, so the rewrite is local to the call.
\<close>

definition assignOp :: "string \<Rightarrow> Expression list \<Rightarrow> string" where
  "assignOp op es =
     (if op = ''='' \<and> prefix ''T'' (Lit (hd es)) then '':='' else op)"

text \<open>
  \<open>stringHelper depth e\<close> follows the method of the same name. \<open>stringOperands\<close> is
  its \<open>for idx := range expr.Expr\<close> loop over the operands that are left; \<open>first\<close> says
  that \<open>idx\<close> is 0. Reading \<open>expr.Expr[0]\<close> of a node with operator \<open>=\<close> and no operand
  is the one place where the method can panic. In the loop, the operand that is
  simplified has one operand of its own, \<open>y\<close>; the other branch of that distinction is
  never taken.
\<close>

fun stringHelper :: "nat \<Rightarrow> Expression \<Rightarrow> panic + string"
  and stringOperands :: "nat \<Rightarrow> string \<Rightarrow> bool \<Rightarrow> Expression list \<Rightarrow> panic + string"
where
  "stringHelper depth (Expression op lit oi es) =
     (if op = [] then Inr lit
      else if op = ''='' \<and> es = [] then Inl IndexOutOfRange
      else
        (case es of
           [x] \<Rightarrow>
             (case stringHelper (depth + 1) x of
                Inl p \<Rightarrow> Inl p
              | Inr s \<Rightarrow> Inr (wrap depth (assignOp op es @ s)))
         | _ \<Rightarrow>
             (case stringOperands (depth + 1) (assignOp op es) True es of
                Inl p \<Rightarrow> Inl p
              | Inr s \<Rightarrow> Inr (wrap depth s))))"
| "stringOperands d op first [] = Inr []"
| "stringOperands d op first (Expression xop xlit xoi xes # rest) =
     (if \<not> first \<and> op = ''+'' \<and> length xes = 1 \<and> xop = ''-'' then
        (case xes of
           [y] \<Rightarrow>
             (case stringHelper d y of
                Inl p \<Rightarrow> Inl p
              | Inr s \<Rightarrow>
                  (case stringOperands d op False rest of
                     Inl p \<Rightarrow> Inl p
                   | Inr r \<Rightarrow> Inr (''-'' @ s @ r)))
         | _ \<Rightarrow> Inl IndexOutOfRange)
      else
        (case stringHelper d (Expression xop xlit xoi xes) of
           Inl p \<Rightarrow> Inl p
         | Inr s \<Rightarrow>
             (case stringOperands d op False rest of
                Inl p \<Rightarrow> Inl p
              | Inr r \<Rightarrow> Inr ((if first then [] else op) @ s @ r))))"

text \<open>\<open>String\<close> starts at depth 0.\<close>

definition String :: "Expression \<Rightarrow> panic + string" where
  "String e = stringHelper 0 e"

subsection \<open>Parsing: \<open>parse\<close>\<close>

text \<open>
  The parser writes through pointers into the node it is called on: it appends operands
  to \<open>Expr\<close>, advances \<open>OpIdx\<close>, sets \<open>Op\<close>, and extends the literal of the operand
  at \<open>OpIdx\<close>. No node is reachable from two parents, so the model passes the node in and
  returns it updated, next to the number of characters consumed.
\<close>

definition set_Op :: "string \<Rightarrow> Expression \<Rightarrow> Expression" where
  "set_Op op e = Expression op (Lit e) (OpIdx e) (Expr e)"

definition set_Expr :: "Expression list \<Rightarrow> Expression \<Rightarrow> Expression" where
  "set_Expr es e = Expression (Op e) (Lit e) (OpIdx e) es"

definition append_Lit :: "char \<Rightarrow> Expression \<Rightarrow> Expression" where
  "append_Lit c e = Expression (Op e) (Lit e @ [c]) (OpIdx e) (Expr e)"

text \<open>\<open>expr.Expr = append(expr.Expr, new(Expression))\<close>\<close>

definition append_operand :: "Expression \<Rightarrow> Expression" where
  "append_operand e = set_Expr (Expr e @ [new_Expression]) e"

text \<open>The \<open>case ' '\<close> branch: a new operand, and \<open>expr.OpIdx++\<close>.\<close>

definition next_operand :: "Expression \<Rightarrow> Expression" where
  "next_operand e =
     Expression (Op e) (Lit e) (OpIdx e + 1) (Expr e @ [new_Expression])"

text \<open>
  \<open>parse e line\<close> is \<open>expr.parse(line)\<close>; \<open>parseLoop e idx rest\<close> is its \<open>for\<close> loop
  at index \<open>idx\<close>, with \<open>rest = line[idx:]\<close>. The loop leaves when \<open>idx\<close> reaches the
  length of the line, or past it: an operator in last position adds 2 to \<open>idx\<close>, and a
  nested call may have returned more than the characters there were. The count returned
  is the source's \<open>idx\<close> in each case. \<open>expr.Expr[expr.OpIdx]\<close> panics out of range.
\<close>

function parse :: "Expression \<Rightarrow> string \<Rightarrow> panic + (nat \<times> Expression)"
  and parseLoop :: "Expression \<Rightarrow> nat \<Rightarrow> string \<Rightarrow> panic + (nat \<times> Expression)"
where
  "parse e line = parseLoop (append_operand e) 0 line"
| "parseLoop e idx [] = Inr (idx, e)"
| "parseLoop e idx (c # cs) =
     (if c = CHR ''('' then
        (if OpIdx e < length (Expr e) then
           (case parse (Expr e ! OpIdx e) cs of
              Inl p \<Rightarrow> Inl p
            | Inr (k, child) \<Rightarrow>
                parseLoop (set_Expr ((Expr e)[OpIdx e := child]) e) (idx + k + 1) (drop k cs))
         else Inl IndexOutOfRange)
      else if c = CHR '':'' then parseLoop e (idx + 1) cs
      else if c = CHR ''='' \<or> c = CHR ''+'' \<or> c = CHR ''-'' \<or> c = CHR ''*'' then
        parseLoop (set_Op [c] e) (idx + 2) (drop 1 cs)
      else if c = CHR '' '' then parseLoop (next_operand e) (idx + 1) cs
      else if c = CHR '')'' then Inr (idx + 1, e)
      else
        (if OpIdx e < length (Expr e) then
           parseLoop (set_Expr ((Expr e)[OpIdx e := append_Lit c (Expr e ! OpIdx e)]) e)
             (idx + 1) cs
         else Inl IndexOutOfRange))"
  by pat_completeness auto
termination
  by (relation "measure (\<lambda>x. case x of Inl (e, l) \<Rightarrow> 2 * length l + 1
                                     | Inr (e, i, l) \<Rightarrow> 2 * length l)") auto

text \<open>
  \<open>Parse\<close> skips the two characters \<open>(:\<close> of the line; \<open>line[2:]\<close> panics on a line
  shorter than that. It is called on a zero \<open>Expression\<close>.
\<close>

definition Parse :: "string \<Rightarrow> panic + Expression" where
  "Parse line =
     (if length line < 2 then Inl SliceOutOfRange
      else (case parse new_Expression (drop 2 line) of
              Inl p \<Rightarrow> Inl p
            | Inr (k, e) \<Rightarrow> Inr e))"

subsection \<open>The transform length\<close>

text \<open>
  \<open>strconv.ParseUint(s, 10, 64)\<close> of the Go library: \<open>s\<close> must be one or more decimal
  digits, with no sign and no underscore, and the value must fit 64 bits; anything else
  is an error, here \<open>None\<close>.
\<close>

definition isDigit :: "char \<Rightarrow> bool" where
  "isDigit c = (48 \<le> (of_char c :: nat) \<and> (of_char c :: nat) \<le> 57)"

definition digitVal :: "char \<Rightarrow> nat" where
  "digitVal c = of_char c - 48"

definition decimalVal :: "string \<Rightarrow> nat" where
  "decimalVal s = foldl (\<lambda>acc c. 10 * acc + digitVal c) 0 s"

definition ParseUint :: "string \<Rightarrow> nat option" where
  "ParseUint s =
     (if s = [] \<or> \<not> list_all isDigit s then None
      else if decimalVal s < 2 ^ 64 then Some (decimalVal s) else None)"

text \<open>
  \<open>Max(a ...uint)\<close> starts from 0 and keeps the largest argument; it is only called
  with two.
\<close>

definition Max2 :: "nat \<Rightarrow> nat \<Rightarrow> nat" where
  "Max2 a b = foldl (\<lambda>m i. if i > m then i else m) 0 [a, b]"

text \<open>
  \<open>transformLength\<close>: a node whose literal ends in \<open>]\<close> yields the number written in
  \<open>Lit[3 : len(Lit)-1]\<close>; the slice panics when the literal has fewer than four
  characters, and a slice that \<open>ParseUint\<close> rejects makes the method panic with that
  error. Any other node yields the maximum over its operands, 0 when there is none.
  \<open>transformOperands m es\<close> is the loop over the operands that are left, \<open>m\<close> the
  running \<open>max\<close>.
\<close>

fun transformLength :: "Expression \<Rightarrow> panic + nat"
  and transformOperands :: "nat \<Rightarrow> Expression list \<Rightarrow> panic + nat"
where
  "transformLength (Expression op lit oi es) =
     (if suffix '']'' lit then
        (if length lit < 4 then Inl SliceOutOfRange
         else (case ParseUint (take (length lit - 1 - 3) (drop 3 lit)) of
                 None \<Rightarrow> Inl NumError
               | Some n \<Rightarrow> Inr n))
      else transformOperands 0 es)"
| "transformOperands m [] = Inr m"
| "transformOperands m (child # rest) =
     (case transformLength child of
        Inl p \<Rightarrow> Inl p
      | Inr n \<Rightarrow> transformOperands (Max2 m n) rest)"

text \<open>\<open>TransformLength\<close> adds one, in \<open>uint\<close> arithmetic (64 bits).\<close>

definition TransformLength :: "Expression \<Rightarrow> panic + nat" where
  "TransformLength e =
     (case transformLength e of Inl p \<Rightarrow> Inl p | Inr n \<Rightarrow> Inr ((n + 1) mod 2 ^ 64))"

subsection \<open>The generator: \<open>main\<close>\<close>

text \<open>
  \<open>main\<close> is modelled from the list of lines that the scanner yields, once the input
  file is open. Two library functions are parameters: \<open>constRe\<close>, the compiled regular
  expression, which gives the three groups of its leftmost match in a line, or \<open>None\<close>;
  and \<open>formatSource\<close>, the Go formatter, which gives the formatted text, or \<open>None\<close> for
  a text it rejects.
\<close>

type_synonym regexp = "string \<Rightarrow> (string \<times> string \<times> string) option"

text \<open>
  The scanning loop: a line that the expression matches adds \<open>submatches[2:]\<close> (name
  and value) to the constants; any other line is parsed and added to the expressions.
\<close>

fun scanLines ::
  "regexp \<Rightarrow> string list \<Rightarrow> Expression list \<Rightarrow> (string \<times> string) list \<Rightarrow>
   panic + (Expression list \<times> (string \<times> string) list)"
where
  "scanLines constRe [] expressions constants = Inr (expressions, constants)"
| "scanLines constRe (line # rest) expressions constants =
     (case constRe line of
        Some (kind, name, val) \<Rightarrow>
          scanLines constRe rest expressions (constants @ [(name, val)])
      | None \<Rightarrow>
          (case Parse line of
             Inl p \<Rightarrow> Inl p
           | Inr expr \<Rightarrow> scanLines constRe rest (expressions @ [expr]) constants))"

text \<open>\<open>for _, expr := range expressions { max = Max(max, expr.TransformLength()) }\<close>\<close>

fun maxLength :: "nat \<Rightarrow> Expression list \<Rightarrow> panic + nat" where
  "maxLength m [] = Inr m"
| "maxLength m (expr # rest) =
     (case TransformLength expr of
        Inl p \<Rightarrow> Inl p
      | Inr n \<Rightarrow> maxLength (Max2 m n) rest)"

text \<open>Decimal output of \<open>%d\<close>.\<close>

definition digitChar :: "nat \<Rightarrow> char" where
  "digitChar d = ''0123456789'' ! d"

fun decimal :: "nat \<Rightarrow> string" where
  "decimal n =
     (if n < 10 then [digitChar n]
      else decimal (n div 10) @ [digitChar (n mod 10)])"

declare decimal.simps [simp del]

definition newline :: string where
  "newline = [CHR 0x0A]"

text \<open>The constant block: the imaginary constant, then the parsed constants.\<close>

definition constBlock :: "(string \<times> string) list \<Rightarrow> string" where
  "constBlock constants =
     ''const ('' @ newline @ ''I = 1i'' @ newline @
     concat (map (\<lambda>(name, val). name @ '' = '' @ val @ newline) constants) @
     '')'' @ newline"

text \<open>
  The signature: \<open>expressions[0].Expr[1].Lit == "xi[0]"\<close>. Both index expressions
  panic out of range.
\<close>

definition signature :: "Expression list \<Rightarrow> panic + string" where
  "signature expressions =
     (if expressions = [] then Inl IndexOutOfRange
      else if length (Expr (expressions ! 0)) < 2 then Inl IndexOutOfRange
      else if Lit (Expr (expressions ! 0) ! 1) = ''xi[0]''
        then Inr (''func DFT(xi, xo []complex128) {'' @ newline)
        else Inr (''func DFT(ri, ii, ro, io []float64) {'' @ newline))"

text \<open>The body: one line per expression, in order.\<close>

fun body :: "Expression list \<Rightarrow> panic + string" where
  "body [] = Inr []"
| "body (expr # rest) =
     (case String expr of
        Inl p \<Rightarrow> Inl p
      | Inr s \<Rightarrow> (case body rest of Inl p \<Rightarrow> Inl p | Inr r \<Rightarrow> Inr (s @ newline @ r)))"

text \<open>The text handed to the formatter, in the order in which \<open>main\<close> builds it.\<close>

definition genSource :: "Expression list \<Rightarrow> (string \<times> string) list \<Rightarrow> panic + string" where
  "genSource expressions constants =
     (case maxLength 0 expressions of
        Inl p \<Rightarrow> Inl p
      | Inr n \<Rightarrow>
          (case signature expressions of
             Inl p \<Rightarrow> Inl p
           | Inr sig \<Rightarrow>
               (case body expressions of
                  Inl p \<Rightarrow> Inl p
                | Inr b \<Rightarrow>
                    Inr (''package dft'' @ newline @
                         ''const N = '' @ decimal n @ newline @ newline @
                         constBlock constants @ sig @ b @ ''}''))))"

text \<open>
  \<open>main\<close> writes its only output, the formatted text, as its last step; every failure
  before that ends the run with nothing written.
\<close>

definition main :: "regexp \<Rightarrow> (string \<Rightarrow> string option) \<Rightarrow> string list \<Rightarrow> panic + string" where
  "main constRe formatSource lines =
     (case scanLines constRe lines [] [] of
        Inl p \<Rightarrow> Inl p
      | Inr (expressions, constants) \<Rightarrow>
          (case genSource expressions constants of
             Inl p \<Rightarrow> Inl p
           | Inr source \<Rightarrow>
               (case formatSource source of
                  None \<Rightarrow> Inl FormatError
                | Some formatted \<Rightarrow> Inr formatted)))"

section \<open>The participle variant: \<open>Program\<close>, \<open>Expr\<close> and their \<open>Gen\<close>\<close>

text \<open>
  \<open>type Expr struct { Ident string; Op string; Sub []Expr }\<close>. The field \<open>Op\<close> is
  \<open>ExprOp\<close> here, the name \<open>Op\<close> being taken by \<open>Expression\<close>.
\<close>

datatype Expr =
  MkExpr (Ident: string) (ExprOp: string) (Sub: "Expr list")

record Constant =
  Name :: string
  Value :: string

record Program =
  Constants :: "Constant list"
  Statements :: "Expr list"

text \<open>
  The code that \<open>Gen\<close> builds with the jennifer library is a \<open>*jen.Statement\<close>, a
  sequence of items: \<open>jen.Id(s)\<close> and \<open>jen.Op(s)\<close> start a statement with one token,
  \<open>Add\<close> appends a statement, \<open>Parens\<close> appends a statement in parentheses. A statement
  added to another renders as its own items in their order, so the model appends them.
\<close>

datatype Code =
    JId string
  | JOp string
  | JParens "Code list"

type_synonym Statement = "Code list"

text \<open>\<open>strings.IndexByte\<close>, with \<open>None\<close> for -1.\<close>

fun IndexByte :: "string \<Rightarrow> char \<Rightarrow> nat option" where
  "IndexByte [] c = None"
| "IndexByte (x # xs) c =
     (if x = c then Some 0 else map_option Suc (IndexByte xs c))"

text \<open>\<open>Inputs\<close>: the base name of every identifier with a \<open>[\<close>, in tree order.\<close>

fun Inputs :: "Expr \<Rightarrow> string list" where
  "Inputs (MkExpr ident op subs) =
     (case IndexByte ident (CHR ''['') of
        None \<Rightarrow> []
      | Some idx \<Rightarrow> [take idx ident]) @ concat (map Inputs subs)"

text \<open>
  The operator of a node with several sub-expressions: \<open>:=\<close> becomes \<open>=\<close> when the
  identifier of the first sub-expression ends in \<open>]\<close>.
\<close>

definition genOp :: "string \<Rightarrow> Expr \<Rightarrow> string" where
  "genOp op x = (if op = '':='' \<and> suffix '']'' (Ident x) then ''='' else op)"

text \<open>
  \<open>Expr.Gen\<close>. \<open>e.Sub[0]\<close> panics when there is no sub-expression. \<open>GenSubs op subs\<close>
  is the loop over \<open>e.Sub[1:]\<close>, giving the items it appends to \<open>lt\<close>; its \<open>op\<close> is
  \<open>e.Op\<close> after the rewrite of \<open>:=\<close>.
\<close>

fun Gen :: "Expr \<Rightarrow> panic + Statement"
  and GenSubs :: "string \<Rightarrow> Expr list \<Rightarrow> panic + Statement"
where
  "Gen (MkExpr ident op subs) =
     (if ident \<noteq> [] then Inr [JId ident]
      else
        (case subs of
           [] \<Rightarrow> Inl IndexOutOfRange
         | [x] \<Rightarrow> (case Gen x of Inl p \<Rightarrow> Inl p | Inr c \<Rightarrow> Inr (JOp op # c))
         | x # rest \<Rightarrow>
             (case Gen x of
                Inl p \<Rightarrow> Inl p
              | Inr lt \<Rightarrow>
                  (case GenSubs (genOp op x) rest of
                     Inl p \<Rightarrow> Inl p
                   | Inr r \<Rightarrow> Inr (lt @ r)))))"
| "GenSubs op [] = Inr []"
| "GenSubs op (sub # rest) =
     (case Gen sub of
        Inl p \<Rightarrow> Inl p
      | Inr c \<Rightarrow>
          (case GenSubs op rest of
             Inl p \<Rightarrow> Inl p
           | Inr r \<Rightarrow>
               (if op = ''*'' \<and> length (Sub sub) > 1 then Inr ([JOp op, JParens c] @ r)
                else if op = ''+'' \<and> ExprOp sub = ''-'' then Inr (c @ r)
                else Inr ([JOp op] @ c @ r))))"

text \<open>\<open>Constant.Gen\<close>\<close>

definition ConstantGen :: "Constant \<Rightarrow> Statement" where
  "ConstantGen c = [JId (Name c), JOp ''='', JId (Value c)]"

text \<open>
  What \<open>Program.Gen\<close> puts into the file: the function's name, its parameters and their
  element type, the constants of the \<open>const\<close> block (no block when there is none), and
  the statements.
\<close>

datatype ArgType = Float64 | Complex128

record GoFunc =
  FuncName :: string
  Args :: "string list"
  ArgElem :: ArgType
  ConstDefs :: "Statement list"
  Body :: "Statement list"

fun GenStatements :: "Expr list \<Rightarrow> panic + Statement list" where
  "GenStatements [] = Inr []"
| "GenStatements (e # rest) =
     (case Gen e of
        Inl p \<Rightarrow> Inl p
      | Inr c \<Rightarrow> (case GenStatements rest of Inl p \<Rightarrow> Inl p | Inr r \<Rightarrow> Inr (c # r)))"

text \<open>The set of function arguments: the inputs of every statement.\<close>

definition argSet :: "Program \<Rightarrow> string set" where
  "argSet p = set (concat (map Inputs (Statements p)))"

text \<open>The constant list after the choice of the signature.\<close>

definition genConstants :: "Program \<Rightarrow> Constant list" where
  "genConstants p =
     (if ''ri'' \<in> argSet p then Constants p
      else \<lparr>Name = ''I'', Value = ''1i''\<rparr> # Constants p)"

definition ProgramGen :: "Program \<Rightarrow> string \<Rightarrow> panic + GoFunc" where
  "ProgramGen p name =
     (case GenStatements (Statements p) of
        Inl e \<Rightarrow> Inl e
      | Inr stmts \<Rightarrow>
          Inr \<lparr>FuncName = name,
               Args = (if ''ri'' \<in> argSet p then [''ri'', ''ii'', ''ro'', ''io'']
                       else [''xi'', ''xo'']),
               ArgElem = (if ''ri'' \<in> argSet p then Float64 else Complex128),
               ConstDefs = map ConstantGen (genConstants p),
               Body = stmts\<rparr>)"

section \<open>Notions used to state the properties\<close>

subsection \<open>Operands of a node of \<open>genfft.go\<close>\<close>

text \<open>
  \<open>folds op x\<close>: under a node whose printed operator is \<open>op\<close>, the operand \<open>x\<close>, not
  the first one, is taken by the simplification of an addition of a unary subtraction.
\<close>

definition folds :: "string \<Rightarrow> Expression \<Rightarrow> bool" where
  "folds op x = (op = ''+'' \<and> IsUnary x \<and> Op x = ''-'')"

text \<open>
  \<open>rendered d op x r\<close>: \<open>r\<close> is the text of the operand \<open>x\<close> at depth \<open>d\<close>; for an
  operand that is folded, it is the text of its only sub-expression.
\<close>

definition rendered :: "nat \<Rightarrow> string \<Rightarrow> Expression \<Rightarrow> string \<Rightarrow> bool" where
  "rendered d op x r =
     (if folds op x then stringHelper d (hd (Expr x)) = Inr r else stringHelper d x = Inr r)"

text \<open>
  The text of the operands after the first: each one behind the operator, or behind a
  bare \<open>-\<close> when it is folded.
\<close>

definition joinRest :: "string \<Rightarrow> Expression list \<Rightarrow> string list \<Rightarrow> string" where
  "joinRest op rest rs =
     concat (map2 (\<lambda>y s. (if folds op y then ''-'' else op) @ s) rest rs)"

text \<open>\<open>deep_same e\<close>: from depth 2 on, the text of \<open>e\<close> does not depend on the depth.\<close>

definition deep_same :: "Expression \<Rightarrow> bool" where
  "deep_same e = (\<forall>d d'. 2 \<le> d \<longrightarrow> 2 \<le> d' \<longrightarrow> stringHelper d e = stringHelper d' e)"

subsection \<open>Operands of a node of the participle variant\<close>

text \<open>\<open>generated sub c\<close>: \<open>c\<close> is the code of the sub-expression \<open>sub\<close>.\<close>

definition generated :: "Expr \<Rightarrow> Statement \<Rightarrow> bool" where
  "generated sub c = (Gen sub = Inr c)"

text \<open>
  The items that stand for one sub-expression after the first, under the operator \<open>op\<close>:
  \<open>c\<close> is the code of the sub-expression.
\<close>

definition genItems :: "string \<Rightarrow> Expr \<Rightarrow> Statement \<Rightarrow> Statement" where
  "genItems op sub c =
     (if op = ''*'' \<and> length (Sub sub) > 1 then [JOp op, JParens c]
      else if op = ''+'' \<and> ExprOp sub = ''-'' then c
      else JOp op # c)"

text \<open>
  \<open>minusOperand sub\<close>: \<open>sub\<close> is a \<open>-\<close> node with one sub-expression.
  \<open>generatedOperand sub c\<close>: \<open>c\<close> is the code of \<open>sub\<close>, or the code of its only
  sub-expression when \<open>sub\<close> is such a node.
\<close>

definition minusOperand :: "Expr \<Rightarrow> bool" where
  "minusOperand sub = (Ident sub = [] \<and> ExprOp sub = ''-'' \<and> length (Sub sub) = 1)"

definition generatedOperand :: "Expr \<Rightarrow> Statement \<Rightarrow> bool" where
  "generatedOperand sub c =
     (if minusOperand sub then generated (hd (Sub sub)) c else generated sub c)"

subsection \<open>Identifiers of a program of the participle variant\<close>

text \<open>
  \<open>identifiers e\<close>: the \<open>Ident\<close> field of every node of \<open>e\<close>, in tree order.
  \<open>indexedBase s\<close>: for an identifier with a bracket, the name before its first \<open>[\<close>.
\<close>

fun identifiers :: "Expr \<Rightarrow> string list" where
  "identifiers (MkExpr ident op subs) = ident # concat (map identifiers subs)"

definition indexedBase :: "string \<Rightarrow> string option" where
  "indexedBase s =
     (if CHR ''['' \<in> set s then Some (takeWhile (\<lambda>c. c \<noteq> CHR ''['') s) else None)"

subsection \<open>Trees that the parser builds\<close>

text \<open>
  The characters that the parser does not put into a literal, and the shape that every
  tree it builds has: the operand index is within the operands, the operator is empty or
  one of \<open>= + - *\<close>, and no literal has one of these characters.
\<close>

definition special :: "char set" where
  "special = set ''(:=+-* )''"

fun wellParsed :: "Expression \<Rightarrow> bool" where
  "wellParsed (Expression op lit oi es) =
     (oi \<le> length es \<and> op \<in> {[], ''='', ''+'', ''-'', ''*''} \<and>
      set lit \<inter> special = {} \<and> (\<forall>x \<in> set es. wellParsed x))"

text \<open>What a call of the parser on a well-shaped node gives: no panic, and such a node.\<close>

definition parsedOK :: "panic + (nat \<times> Expression) \<Rightarrow> bool" where
  "parsedOK r = (case r of Inl p \<Rightarrow> False
                 | Inr (k, e) \<Rightarrow> wellParsed e \<and> OpIdx e < length (Expr e))"

text \<open>
  \<open>operated e\<close>: every node of \<open>e\<close> that has an operator has an operand. The parser
  sets the operator of a node only after it has given the node its first operand.
\<close>

fun operated :: "Expression \<Rightarrow> bool" where
  "operated (Expression op lit oi es) =
     ((op \<noteq> [] \<longrightarrow> es \<noteq> []) \<and> (\<forall>x \<in> set es. operated x))"

definition operatedOK :: "panic + (nat \<times> Expression) \<Rightarrow> bool" where
  "operatedOK r = (case r of Inl p \<Rightarrow> True | Inr (k, e) \<Rightarrow> operated e)"

subsection \<open>Statement lines\<close>

text \<open>
  \<open>statements constRe lines\<close>: the lines that \<open>main\<close> parses as statements, those that
  the regular expression of the constants does not match, in the order of the input.
\<close>

definition statements :: "regexp \<Rightarrow> string list \<Rightarrow> string list" where
  "statements constRe lines = filter (\<lambda>line. constRe line = None) lines"

subsection \<open>Index suffixes\<close>

text \<open>
  \<open>hasBadIndex e\<close>: going down from \<open>e\<close> through nodes whose literal does not end in
  \<open>]\<close>, there is a node whose literal ends in \<open>]\<close> and whose characters from position 3
  to the \<open>]\<close> are not a decimal number of 64 bits (or that has fewer than four
  characters).
\<close>

fun hasBadIndex :: "Expression \<Rightarrow> bool" where
  "hasBadIndex (Expression op lit oi es) =
     (if suffix '']'' lit
      then length lit < 4 \<or> ParseUint (take (length lit - 1 - 3) (drop 3 lit)) = None
      else (\<exists>x \<in> set es. hasBadIndex x))"

subsection \<open>Leaves in tree order\<close>

text \<open>
  \<open>literals e\<close>: the literals that \<open>stringHelper\<close> prints for \<open>e\<close>, those of the nodes
  without operator that are reached through nodes with an operator, from left to right.
  \<open>unpunctuated s\<close>: the text \<open>s\<close> without the characters of operators, parentheses and
  spaces.
\<close>

fun literals :: "Expression \<Rightarrow> string list" where
  "literals (Expression op lit oi es) =
     (if op = [] then [lit] else concat (map literals es))"

definition unpunctuated :: "string \<Rightarrow> string" where
  "unpunctuated s = filter (\<lambda>c. c \<notin> special) s"

text \<open>
  \<open>leafIdents e\<close>: the identifiers that \<open>Gen\<close> writes for \<open>e\<close>, from left to right.
  \<open>codeIdents c\<close>: the identifiers of the code \<open>c\<close>, from left to right, those between
  parentheses included.
\<close>

fun leafIdents :: "Expr \<Rightarrow> string list" where
  "leafIdents (MkExpr ident op subs) =
     (if ident \<noteq> [] then [ident] else concat (map leafIdents subs))"

fun codeIdents :: "Code \<Rightarrow> string list" where
  "codeIdents (JId s) = [s]"
| "codeIdents (JOp s) = []"
| "codeIdents (JParens cs) = concat (map codeIdents cs)"

subsection \<open>Indexed identifiers\<close>

text \<open>
  \<open>indexOf s\<close>: for an identifier of the form \<open>name[digits]\<close>, the number that the
  digits write; \<open>None\<close> for any other text. \<open>leafIndices e\<close>: the indices of all such
  identifiers in \<open>e\<close>.
\<close>

definition indexOf :: "string \<Rightarrow> nat option" where
  "indexOf s =
     (let name = takeWhile (\<lambda>c. c \<noteq> CHR ''['') s;
          bracket = drop (length name) s;
          digits = butlast (tl bracket)
      in if 2 \<le> length bracket \<and> last bracket = CHR '']'' \<and> digits \<noteq> [] \<and>
            list_all isDigit digits
         then Some (decimalVal digits) else None)"

fun leafIndices :: "Expression \<Rightarrow> nat list" where
  "leafIndices (Expression op lit oi es) =
     (case indexOf lit of None \<Rightarrow> [] | Some n \<Rightarrow> [n]) @ concat (map leafIndices es)"

text \<open>
  \<open>twoLetterIndices e\<close>: every literal of \<open>e\<close> that ends in \<open>]\<close> is an identifier
  \<open>name[digits]\<close> whose name has two characters and whose index is below \<open>2^64 - 1\<close>,
  on a node without operands.
\<close>

fun twoLetterIndices :: "Expression \<Rightarrow> bool" where
  "twoLetterIndices (Expression op lit oi es) =
     (if suffix '']'' lit
      then es = [] \<and> length (takeWhile (\<lambda>c. c \<noteq> CHR ''['') lit) = 2 \<and>
           (case indexOf lit of None \<Rightarrow> False | Some n \<Rightarrow> n + 1 < 2 ^ 64)
      else (\<forall>x \<in> set es. twoLetterIndices x))"

section \<open>Example inputs\<close>

text \<open>
  A regular expression that matches one constant declaration only, for the examples
  that run \<open>main\<close>.
\<close>

definition constRe_KP5 :: regexp where
  "constRe_KP5 l =
     (if l = ''DK(KP5, +0.5);'' then Some (''DK'', ''KP5'', ''+0.5'') else None)"

text \<open>
  Two programs of the participle variant: \<open>(:= T1 (+ xi[0] xi[1]))\<close> and
  \<open>(:= T1 (+ ri[0] ii[0]))\<close>, each with the constant \<open>KP5\<close>.
\<close>

definition complexProgram :: Program where
  "complexProgram =
     \<lparr>Constants = [\<lparr>Name = ''KP5'', Value = ''+0.5''\<rparr>],
      Statements =
        [MkExpr [] '':=''
           [MkExpr ''T1'' [] [],
            MkExpr [] ''+'' [MkExpr ''xi[0]'' [] [], MkExpr ''xi[1]'' [] []]]]\<rparr>"

definition realProgram :: Program where
  "realProgram =
     \<lparr>Constants = [\<lparr>Name = ''KP5'', Value = ''+0.5''\<rparr>],
      Statements =
        [MkExpr [] '':=''
           [MkExpr ''T1'' [] [],
            MkExpr [] ''+'' [MkExpr ''ri[0]'' [] [], MkExpr ''ii[0]'' [] []]]]\<rparr>"

section \<open>Evaluation lemmas\<close>

lemma suffix_bracket: "suffix [c] s \<longleftrightarrow> s \<noteq> [] \<and> last s = c"
  by (cases s rule: rev_cases) (auto simp: suffix_def)

lemmas parse_defs =
  Parse_def new_Expression_def append_operand_def set_Expr_def set_Op_def
  append_Lit_def next_operand_def

section \<open>Rendering of a node from the rendering of its operands\<close>

lemma stringOperands_rest:
  "list_all2 (rendered d op) rest rs \<Longrightarrow>
   stringOperands d op False rest =
     Inr (joinRest op rest rs)"
  unfolding joinRest_def
proof (induction rest rs rule: list_all2_induct)
  case Nil
  then show ?case by simp
next
  case (Cons x xs r rs)
  obtain xop xlit xoi xes where x: "x = Expression xop xlit xoi xes" by (cases x)
  show ?case
  proof (cases "folds op x")
    case True
    then obtain y where y: "xes = [y]"
      by (auto simp: folds_def IsUnary_def x length_Suc_conv)
    from True Cons.hyps have "stringHelper d y = Inr r"
      by (simp add: rendered_def x y)
    with True Cons.IH show ?thesis
      by (simp add: x y folds_def IsUnary_def)
  next
    case False
    with Cons.hyps have "stringHelper d x = Inr r"
      by (simp add: rendered_def)
    with False Cons.IH show ?thesis
      by (auto simp: x folds_def IsUnary_def)
  qed
qed

lemma stringOperands_first:
  "stringHelper d x = Inr r \<Longrightarrow> list_all2 (rendered d op) rest rs \<Longrightarrow>
   stringOperands d op True (x # rest) =
     Inr (r @ joinRest op rest rs)"
  using stringOperands_rest [of d op rest rs]
  by (cases x) simp

lemma stringHelper_nary:
  assumes "op \<noteq> []" "rest \<noteq> []"
    "stringHelper (d + 1) x = Inr r"
    "list_all2 (rendered (d + 1) (assignOp op (x # rest))) rest rs"
  shows "stringHelper d (Expression op lit oi (x # rest)) =
     Inr (wrap d (r @ joinRest (assignOp op (x # rest)) rest rs))"
proof -
  from assms(2) obtain y ys where rest: "rest = y # ys" by (cases rest) auto
  have "stringHelper d (Expression op lit oi (x # y # ys)) =
     (case stringOperands (d + 1) (assignOp op (x # y # ys)) True (x # y # ys) of
        Inl p \<Rightarrow> Inl p | Inr s \<Rightarrow> Inr (wrap d s))"
    using assms(1) by simp
  then show ?thesis
    unfolding rest [symmetric]
    by (simp only: stringOperands_first [OF assms(3,4)] sum.case)
qed


lemma deep_sameD:
  "deep_same e \<Longrightarrow> 2 \<le> d \<Longrightarrow> 2 \<le> d' \<Longrightarrow> stringHelper d e = stringHelper d' e"
  unfolding deep_same_def by blast

lemma stringOperands_deep:
  assumes "\<forall>x \<in> set es. deep_same x \<and> (\<forall>y \<in> set (Expr x). deep_same y)"
    and "2 \<le> d" "2 \<le> d'"
  shows "stringOperands d op f es = stringOperands d' op f es"
  using assms(1)
proof (induction es arbitrary: f)
  case Nil
  show ?case by simp
next
  case (Cons x xs)
  obtain xop xlit xoi xes where x: "x = Expression xop xlit xoi xes" by (cases x)
  from Cons.prems have dx: "deep_same x" and dy: "\<forall>y \<in> set (Expr x). deep_same y"
    by simp_all
  from dx have "stringHelper d x = stringHelper d' x"
    unfolding deep_same_def using assms(2,3) by blast
  then have a: "stringHelper d (Expression xop xlit xoi xes) =
      stringHelper d' (Expression xop xlit xoi xes)"
    unfolding x .
  have b: "stringHelper d y = stringHelper d' y" if "y \<in> set xes" for y
  proof -
    from dy that have "deep_same y" unfolding x by simp
    then show ?thesis unfolding deep_same_def using assms(2,3) by blast
  qed
  have c: "stringOperands d op g xs = stringOperands d' op g xs" for g
    using Cons.IH [of g] Cons.prems by simp
  show ?case
    unfolding x using a b c
    by (auto simp del: stringHelper.simps cong: sum.case_cong split: list.splits)
qed

lemma deep_same_all: "deep_same e \<and> (\<forall>y \<in> set (Expr e). deep_same y)"
proof (induction e)
  case (Expression op lit oi es)
  then have IH: "\<forall>x \<in> set es. deep_same x \<and> (\<forall>y \<in> set (Expr x). deep_same y)"
    by simp
  have "stringHelper d (Expression op lit oi es) = stringHelper d' (Expression op lit oi es)"
    if "2 \<le> d" "2 \<le> d'" for d d'
  proof (cases es)
    case Nil
    with that show ?thesis by (simp add: wrap_def)
  next
    case (Cons x xs)
    from IH Cons have "deep_same x" by simp
    then have x: "stringHelper (d + 1) x = stringHelper (d' + 1) x"
      using that by (intro deep_sameD) simp_all
    have l: "stringOperands (d + 1) p f es = stringOperands (d' + 1) p f es" for p f
      using stringOperands_deep [OF IH, of "d + 1" "d' + 1"] that by simp
    show ?thesis
      using that x l [of "assignOp op es" True] Cons
      by (cases xs) (simp_all add: wrap_def cong: sum.case_cong)
  qed
  then have "deep_same (Expression op lit oi es)"
    unfolding deep_same_def by blast
  with IH show ?case by simp
qed

lemma stringHelper_deep: "2 \<le> d \<Longrightarrow> 2 \<le> d' \<Longrightarrow> stringHelper d e = stringHelper d' e"
  using deep_same_all [of e] by (intro deep_sameD) simp_all

lemma stringHelper_parens:
  assumes "Op e \<noteq> []" "2 \<le> d"
  shows "stringHelper d e =
    (case stringHelper 1 e of Inl p \<Rightarrow> Inl p | Inr b \<Rightarrow> Inr (''('' @ b @ '')''))"
proof -
  obtain op lit oi es where e: "e = Expression op lit oi es" by (cases e)
  have x: "stringHelper (d + 1) x = stringHelper 2 x" for x
    using assms(2) by (intro stringHelper_deep) simp_all
  have l: "stringOperands (d + 1) p f xs = stringOperands 2 p f xs" for p f xs
    using assms(2) stringOperands_deep [of xs "d + 1" 2 p f] deep_same_all by simp
  have two: "Suc (Suc 0) = 2" by simp
  show ?thesis
    using assms x l
    by (cases es; simp add: e wrap_def two del: One_nat_def split: list.splits sum.splits)
qed

lemma assignOp_other: "op \<noteq> ''='' \<Longrightarrow> assignOp op es = op"
  by (simp add: assignOp_def)



section \<open>Code of a node from the code of its sub-expressions\<close>

lemma GenSubs_items:
  "list_all2 generated rest cs \<Longrightarrow>
   GenSubs op rest = Inr (concat (map2 (genItems op) rest cs))"
proof (induction rest cs rule: list_all2_induct)
  case Nil
  show ?case by simp
next
  case (Cons sub rest c cs)
  then show ?case
    by (simp add: generated_def genItems_def)
qed

lemma Gen_unary: "generated x c \<Longrightarrow> Gen (MkExpr [] op [x]) = Inr (JOp op # c)"
  by (simp add: generated_def)

lemma Gen_nary:
  assumes "rest \<noteq> []" "generated x lt" "list_all2 generated rest cs"
  shows "Gen (MkExpr [] op (x # rest)) =
     Inr (lt @ concat (map2 (genItems (genOp op x)) rest cs))"
proof -
  from assms(1) obtain y ys where rest: "rest = y # ys" by (cases rest) auto
  have "Gen (MkExpr [] op (x # y # ys)) =
     (case Gen x of Inl p \<Rightarrow> Inl p
      | Inr lt \<Rightarrow> (case GenSubs (genOp op x) (y # ys) of
                    Inl p \<Rightarrow> Inl p | Inr r \<Rightarrow> Inr (lt @ r)))"
    by (simp del: GenSubs.simps)
  moreover have "Gen x = Inr lt"
    using assms(2) by (simp add: generated_def)
  ultimately show ?thesis
    unfolding rest [symmetric]
    by (simp only: GenSubs_items [OF assms(3), of "genOp op x"] sum.case)
qed

lemma genItems_plus:
  "genItems ''+'' = (\<lambda>sub c. if ExprOp sub = ''-'' then c else JOp ''+'' # c)"
  by (intro ext) (simp add: genItems_def)

lemma genItems_minus: "genItems ''-'' sub c = JOp ''-'' # c"
  by (simp add: genItems_def)

lemma genItems_times:
  "genItems ''*'' = (\<lambda>sub c. if length (Sub sub) > 1 then [JOp ''*'', JParens c] else JOp ''*'' # c)"
  by (intro ext) (simp add: genItems_def)

lemma generated_minusOperand:
  assumes "minusOperand sub" "generated (hd (Sub sub)) c"
  shows "generated sub (JOp ''-'' # c)"
proof -
  obtain ident op subs where sub: "sub = MkExpr ident op subs" by (cases sub)
  from assms(1) obtain y where "ident = []" "op = ''-''" "subs = [y]"
    by (auto simp: minusOperand_def sub length_Suc_conv)
  with assms(2) show ?thesis
    by (simp add: sub generated_def)
qed

lemma GenSubs_plus_operands:
  "list_all2 generatedOperand rest cs \<Longrightarrow>
   GenSubs ''+'' rest =
     Inr (concat (map2 (\<lambda>sub c. if minusOperand sub then JOp ''-'' # c
                                 else if ExprOp sub = ''-'' then c else JOp ''+'' # c) rest cs))"
proof (induction rest cs rule: list_all2_induct)
  case Nil
  show ?case by simp
next
  case (Cons sub rest c cs)
  show ?case
  proof (cases "minusOperand sub")
    case True
    with Cons.hyps have "Gen sub = Inr (JOp ''-'' # c)"
      using generated_minusOperand [of sub c] by (simp add: generatedOperand_def generated_def)
    moreover from True have "ExprOp sub = ''-''" by (simp add: minusOperand_def)
    ultimately show ?thesis using True Cons.IH by simp
  next
    case False
    with Cons.hyps have "Gen sub = Inr c"
      by (simp add: generatedOperand_def generated_def)
    then show ?thesis using False Cons.IH by simp
  qed
qed

lemma genItems_assign:
  "op = ''='' \<or> op = '':='' \<Longrightarrow> genItems op sub c = JOp op # c"
  by (auto simp: genItems_def)

lemma IndexByte_None: "IndexByte s c = None \<longleftrightarrow> c \<notin> set s"
  by (induction s) auto

lemma IndexByte_Some: "IndexByte s c = Some n \<Longrightarrow> take n s = takeWhile (\<lambda>x. x \<noteq> c) s"
  by (induction s arbitrary: n) (auto split: if_splits)

lemma Inputs_identifiers:
  "set (Inputs e) = {b. \<exists>i \<in> set (identifiers e). indexedBase i = Some b}"
proof (induction e)
  case (MkExpr ident op subs)
  have here: "set (case IndexByte ident (CHR ''['') of None \<Rightarrow> [] | Some idx \<Rightarrow> [take idx ident]) =
      {b. indexedBase ident = Some b}"
  proof (cases "IndexByte ident (CHR ''['')")
    case None
    moreover from None have "CHR ''['' \<notin> set ident"
      using IndexByte_None [of ident "CHR ''[''"] by simp
    ultimately show ?thesis by (simp add: indexedBase_def)
  next
    case (Some n)
    then have "CHR ''['' \<in> set ident"
      using IndexByte_None [of ident "CHR ''[''"] by auto
    moreover from Some have "take n ident = takeWhile (\<lambda>x. x \<noteq> CHR ''['') ident"
      by (rule IndexByte_Some)
    ultimately show ?thesis
      using Some by (auto simp: indexedBase_def)
  qed
  show ?case
    using MkExpr.IH by (simp add: here) blast
qed

lemma argSet_identifiers:
  "b \<in> argSet p \<longleftrightarrow>
     (\<exists>s \<in> set (Statements p). \<exists>i \<in> set (identifiers s). indexedBase i = Some b)"
  by (auto simp: argSet_def Inputs_identifiers)

section \<open>The statements of the examples\<close>

lemma Parse_product_of_sum:
  "Parse ''(:= T1 (* xi[0] (+ xi[1] xi[2])))'' =
     Inr (Expression ''='' [] 1
           [Expression [] ''T1'' 0 [],
            Expression ''*'' [] 1
              [Expression [] ''xi[0]'' 0 [],
               Expression ''+'' [] 1
                 [Expression [] ''xi[1]'' 0 [], Expression [] ''xi[2]'' 0 []]]])"
  by (simp add: parse_defs)

lemma String_product_of_sum:
  "String (Expression ''='' [] 1
           [Expression [] ''T1'' 0 [],
            Expression ''*'' [] 1
              [Expression [] ''xi[0]'' 0 [],
               Expression ''+'' [] 1
                 [Expression [] ''xi[1]'' 0 [], Expression [] ''xi[2]'' 0 []]]]) =
     Inr ''T1:=xi[0]*(xi[1]+xi[2])''"
  by (simp add: String_def wrap_def assignOp_def)

lemma Gen_product_of_sum:
  "Gen (MkExpr [] '':=''
         [MkExpr ''T1'' [] [],
          MkExpr [] ''*''
            [MkExpr ''xi[0]'' [] [],
             MkExpr [] ''+'' [MkExpr ''xi[1]'' [] [], MkExpr ''xi[2]'' [] []]]]) =
     Inr [JId ''T1'', JOp '':='', JId ''xi[0]'', JOp ''*'',
          JParens [JId ''xi[1]'', JOp ''+'', JId ''xi[2]'']]"
  by (simp add: genOp_def suffix_bracket)

lemma Parse_sum_with_negation:
  "Parse ''(:= T2 (+ xi[0] (- xi[1])))'' =
     Inr (Expression ''='' [] 1
           [Expression [] ''T2'' 0 [],
            Expression ''+'' [] 1
              [Expression [] ''xi[0]'' 0 [],
               Expression ''-'' [] 0 [Expression [] ''xi[1]'' 0 []]]])"
  by (simp add: parse_defs)

lemma String_sum_with_negation:
  "String (Expression ''='' [] 1
           [Expression [] ''T2'' 0 [],
            Expression ''+'' [] 1
              [Expression [] ''xi[0]'' 0 [],
               Expression ''-'' [] 0 [Expression [] ''xi[1]'' 0 []]]]) =
     Inr ''T2:=xi[0]-xi[1]''"
  by (simp add: String_def wrap_def assignOp_def)

lemma Gen_sum_with_negation:
  "Gen (MkExpr [] '':=''
         [MkExpr ''T2'' [] [],
          MkExpr [] ''+'' [MkExpr ''xi[0]'' [] [], MkExpr [] ''-'' [MkExpr ''xi[1]'' [] []]]]) =
     Inr [JId ''T2'', JOp '':='', JId ''xi[0]'', JOp ''-'', JId ''xi[1]'']"
  by (simp add: genOp_def suffix_bracket)



lemma Parse_sum:
  "Parse ''(:= T1 (+ xi[0] xi[1]))'' =
     Inr (Expression ''='' [] 1
           [Expression [] ''T1'' 0 [],
            Expression ''+'' [] 1
              [Expression [] ''xi[0]'' 0 [], Expression [] ''xi[1]'' 0 []]])"
  by (simp add: parse_defs)





lemma Parse_real_input:
  "Parse ''(:= T1 ri[0])'' =
     Inr (Expression ''='' [] 1 [Expression [] ''T1'' 0 [], Expression [] ''ri[0]'' 0 []])"
  by (simp add: parse_defs)

lemma ParseUint_0: "ParseUint ''0'' = Some 0"
  by (simp add: ParseUint_def isDigit_def decimalVal_def digitVal_def)

lemma ParseUint_1: "ParseUint ''1'' = Some 1"
  by (simp add: ParseUint_def isDigit_def decimalVal_def digitVal_def)

lemma decimal_digit: "n < 10 \<Longrightarrow> decimal n = [digitChar n]"
  by (simp add: decimal.simps)

lemma decimal_1: "decimal (Suc 0) = ''1''"
  by (simp add: decimal_digit digitChar_def)

lemma decimal_2: "decimal (Suc (Suc 0)) = ''2''"
  by (simp add: decimal_digit digitChar_def)

lemma genSource_real_input:
  "genSource [Expression ''='' [] 1 [Expression [] ''T1'' 0 [], Expression [] ''ri[0]'' 0 []]] [] =
     Inr (''package dft'' @ newline @ ''const N = 1'' @ newline @ newline @
          ''const ('' @ newline @ ''I = 1i'' @ newline @ '')'' @ newline @
          ''func DFT(ri, ii, ro, io []float64) {'' @ newline @
          ''T1:=ri[0]'' @ newline @ ''}'')"
  by (simp add: genSource_def TransformLength_def Max2_def suffix_bracket ParseUint_0
      signature_def String_def wrap_def assignOp_def constBlock_def decimal_1)

lemma genSource_complex_sum:
  "genSource
     [Expression ''='' [] 1
        [Expression [] ''T1'' 0 [],
         Expression ''+'' [] 1 [Expression [] ''xi[0]'' 0 [], Expression [] ''xi[1]'' 0 []]]] [] =
     Inr (''package dft'' @ newline @ ''const N = 2'' @ newline @ newline @
          ''const ('' @ newline @ ''I = 1i'' @ newline @ '')'' @ newline @
          ''func DFT(ri, ii, ro, io []float64) {'' @ newline @
          ''T1:=xi[0]+xi[1]'' @ newline @ ''}'')"
  by (simp add: genSource_def TransformLength_def Max2_def suffix_bracket ParseUint_0 ParseUint_1
      signature_def String_def wrap_def assignOp_def constBlock_def decimal_2)

lemma Parse_unbalanced:
  "Parse ''(:= T1 (+ xi[0] xi[1]'' =
     Inr (Expression ''='' [] 1
           [Expression [] ''T1'' 0 [],
            Expression ''+'' [] 1
              [Expression [] ''xi[0]'' 0 [], Expression [] ''xi[1]'' 0 []]])"
  by (simp add: parse_defs)

lemma Parse_operator_slash:
  "Parse ''(:/ T1 xi[0])'' =
     Inr (Expression [] [] 2
           [Expression [] ''/'' 0 [], Expression [] ''T1'' 0 [], Expression [] ''xi[0]'' 0 []])"
  by (simp add: parse_defs)

lemma genSource_operator_slash:
  "genSource
     [Expression [] [] 2
        [Expression [] ''/'' 0 [], Expression [] ''T1'' 0 [], Expression [] ''xi[0]'' 0 []]] [] =
     Inr (''package dft'' @ newline @ ''const N = 1'' @ newline @ newline @
          ''const ('' @ newline @ ''I = 1i'' @ newline @ '')'' @ newline @
          ''func DFT(ri, ii, ro, io []float64) {'' @ newline @
          newline @ ''}'')"
  by (simp add: genSource_def TransformLength_def Max2_def suffix_bracket ParseUint_0
      signature_def String_def constBlock_def decimal_1)

lemma main_operator_slash:
  "main constRe_KP5 Some [''(:/ T1 xi[0])''] =
     Inr (''package dft'' @ newline @ ''const N = 1'' @ newline @ newline @
          ''const ('' @ newline @ ''I = 1i'' @ newline @ '')'' @ newline @
          ''func DFT(ri, ii, ro, io []float64) {'' @ newline @
          newline @ ''}'')"
  by (simp add: main_def constRe_KP5_def Parse_operator_slash genSource_operator_slash
      del: One_nat_def)



lemma main_unbalanced:
  "main constRe_KP5 Some [''(:= T1 (+ xi[0] xi[1]''] =
     Inr (''package dft'' @ newline @ ''const N = 2'' @ newline @ newline @
          ''const ('' @ newline @ ''I = 1i'' @ newline @ '')'' @ newline @
          ''func DFT(ri, ii, ro, io []float64) {'' @ newline @
          ''T1:=xi[0]+xi[1]'' @ newline @ ''}'')"
  by (simp add: main_def constRe_KP5_def Parse_unbalanced genSource_complex_sum del: One_nat_def)

lemma Parse_bad_index:
  "Parse ''(:= T1 xi[a])'' =
     Inr (Expression ''='' [] 1 [Expression [] ''T1'' 0 [], Expression [] ''xi[a]'' 0 []])"
  by (simp add: parse_defs)

lemma ParseUint_a: "ParseUint ''a'' = None"
  by (simp add: ParseUint_def isDigit_def)

section \<open>The text and the function that are generated\<close>

lemma genSource_Inr:
  "genSource es cs = Inr src \<Longrightarrow>
   \<exists>n sig b. maxLength 0 es = Inr n \<and> signature es = Inr sig \<and> body es = Inr b \<and>
     src = ''package dft'' @ newline @ ''const N = '' @ decimal n @ newline @ newline @
           constBlock cs @ sig @ b @ ''}''"
  by (auto simp: genSource_def split: sum.splits)

lemma signature_Inr:
  "signature es = Inr sig \<Longrightarrow>
   sig = (if Lit (Expr (es ! 0) ! 1) = ''xi[0]''
          then ''func DFT(xi, xo []complex128) {''
          else ''func DFT(ri, ii, ro, io []float64) {'') @ newline"
  by (auto simp: signature_def split: if_splits)

lemma ProgramGen_defined:
  "GenStatements (Statements p) = Inr stmts \<Longrightarrow> \<exists>f. ProgramGen p name = Inr f"
  by (simp add: ProgramGen_def)

lemma GenStatements_complexProgram:
  "GenStatements (Statements complexProgram) =
     Inr [[JId ''T1'', JOp '':='', JId ''xi[0]'', JOp ''+'', JId ''xi[1]'']]"
  by (simp add: complexProgram_def genOp_def suffix_bracket)

lemma GenStatements_realProgram:
  "GenStatements (Statements realProgram) =
     Inr [[JId ''T1'', JOp '':='', JId ''ri[0]'', JOp ''+'', JId ''ii[0]'']]"
  by (simp add: realProgram_def genOp_def suffix_bracket)

section \<open>The parser does not fail\<close>

lemma wellParsed_new: "wellParsed new_Expression"
  by (simp add: new_Expression_def)

lemma wellParsed_append_operand:
  "wellParsed e \<Longrightarrow> wellParsed (append_operand e) \<and>
     OpIdx (append_operand e) < length (Expr (append_operand e))"
  by (cases e) (auto simp: append_operand_def set_Expr_def wellParsed_new)

lemma wellParsed_next_operand:
  "wellParsed e \<Longrightarrow> OpIdx e < length (Expr e) \<Longrightarrow> wellParsed (next_operand e) \<and>
     OpIdx (next_operand e) < length (Expr (next_operand e))"
  by (cases e) (auto simp: next_operand_def wellParsed_new)

lemma wellParsed_set_Op:
  "wellParsed e \<Longrightarrow> c = CHR ''='' \<or> c = CHR ''+'' \<or> c = CHR ''-'' \<or> c = CHR ''*'' \<Longrightarrow>
   wellParsed (set_Op [c] e) \<and> OpIdx (set_Op [c] e) = OpIdx e \<and> Expr (set_Op [c] e) = Expr e"
  by (cases e) (auto simp: set_Op_def)

lemma wellParsed_child:
  "wellParsed e \<Longrightarrow> i < length (Expr e) \<Longrightarrow> wellParsed (Expr e ! i)"
  by (cases e) auto

lemma wellParsed_update:
  "wellParsed e \<Longrightarrow> wellParsed x \<Longrightarrow>
   wellParsed (set_Expr ((Expr e)[i := x]) e) \<and>
   OpIdx (set_Expr ((Expr e)[i := x]) e) = OpIdx e \<and>
   length (Expr (set_Expr ((Expr e)[i := x]) e)) = length (Expr e)"
  by (cases e) (auto simp: set_Expr_def dest: set_update_subset_insert [THEN subsetD])

lemma wellParsed_append_Lit:
  "wellParsed x \<Longrightarrow> c \<notin> special \<Longrightarrow> wellParsed (append_Lit c x)"
  by (cases x) (auto simp: append_Lit_def)

lemma parse_wellParsed:
  "wellParsed e \<Longrightarrow> parsedOK (parse e line)"
  "wellParsed e \<Longrightarrow> OpIdx e < length (Expr e) \<Longrightarrow> parsedOK (parseLoop e idx line)"
proof (induction e line and e idx line rule: parse_parseLoop.induct)
  case (1 e line)
  then show ?case
    using wellParsed_append_operand [of e] by simp
next
  case (2 e idx)
  then show ?case by (simp add: parsedOK_def)
next
  case (3 e idx c cs)
  show ?case
  proof (cases "c = CHR ''(''")
    case True
    have child: "wellParsed (Expr e ! OpIdx e)"
      using "3.prems" by (simp add: wellParsed_child)
    from "3.IH"(1) [OF True "3.prems"(2) child]
    obtain k x where r: "parse (Expr e ! OpIdx e) cs = Inr (k, x)" and x: "wellParsed x"
      by (auto simp: parsedOK_def split: sum.splits)
    have "parsedOK (parseLoop (set_Expr ((Expr e)[OpIdx e := x]) e) (idx + k + 1) (drop k cs))"
      using "3.IH"(2) [OF True "3.prems"(2) r refl]
        wellParsed_update [OF "3.prems"(1) x, of "OpIdx e"] "3.prems"(2)
      by simp
    then show ?thesis
      using True "3.prems"(2) r by (simp del: parse.simps)
  next
    case nopen: False
    show ?thesis
    proof (cases "c = CHR '':''")
      case True
      then show ?thesis
        using nopen "3.IH"(3) "3.prems" by simp
    next
      case ncolon: False
      show ?thesis
      proof (cases "c = CHR ''='' \<or> c = CHR ''+'' \<or> c = CHR ''-'' \<or> c = CHR ''*''")
        case True
        then show ?thesis
          using nopen ncolon "3.IH"(4) [OF nopen ncolon True]
            wellParsed_set_Op [OF "3.prems"(1) True] "3.prems"(2)
          by auto
      next
        case oper: False
        show ?thesis
        proof (cases "c = CHR '' ''")
          case True
          then show ?thesis
            using nopen ncolon oper "3.IH"(5) [OF nopen ncolon oper True]
              wellParsed_next_operand [OF "3.prems"]
            by simp
        next
          case space: False
          show ?thesis
          proof (cases "c = CHR '')''")
            case True
            then show ?thesis
              using "3.prems" by (simp add: parsedOK_def)
          next
            case close: False
            have "c \<notin> special"
              using nopen ncolon oper space close by (auto simp: special_def)
            then have "wellParsed (append_Lit c (Expr e ! OpIdx e))"
              using "3.prems" by (simp add: wellParsed_child wellParsed_append_Lit)
            then show ?thesis
              using nopen ncolon oper space close
                "3.IH"(6) [OF nopen ncolon oper space close "3.prems"(2)]
                wellParsed_update [OF "3.prems"(1), of _ "OpIdx e"] "3.prems"(2)
              by simp
          qed
        qed
      qed
    qed
  qed
qed

lemma Parse_wellParsed:
  "2 \<le> length line \<Longrightarrow> \<exists>e. Parse line = Inr e \<and> wellParsed e"
  using parse_wellParsed(1) [OF wellParsed_new, of "drop 2 line"]
  by (auto simp: Parse_def parsedOK_def split: sum.splits)

text \<open>Every node with an operator that the parser builds has an operand.\<close>

lemma operated_new: "operated new_Expression"
  by (simp add: new_Expression_def)

lemma operated_append_operand: "operated e \<Longrightarrow> operated (append_operand e)"
  by (cases e) (auto simp: append_operand_def set_Expr_def operated_new)

lemma operated_next_operand: "operated e \<Longrightarrow> operated (next_operand e)"
  by (cases e) (auto simp: next_operand_def operated_new)

lemma operated_set_Op: "operated e \<Longrightarrow> Expr e \<noteq> [] \<Longrightarrow> operated (set_Op op e)"
  by (cases e) (auto simp: set_Op_def)

lemma operated_child: "operated e \<Longrightarrow> i < length (Expr e) \<Longrightarrow> operated (Expr e ! i)"
  by (cases e) auto

lemma operated_update:
  "operated e \<Longrightarrow> operated x \<Longrightarrow> operated (set_Expr ((Expr e)[i := x]) e)"
  by (cases e) (auto simp: set_Expr_def dest: set_update_subset_insert [THEN subsetD])

lemma operated_append_Lit: "operated x \<Longrightarrow> operated (append_Lit c x)"
  by (cases x) (auto simp: append_Lit_def)

lemma parse_operated:
  "wellParsed e \<Longrightarrow> operated e \<Longrightarrow> operatedOK (parse e line)"
  "wellParsed e \<Longrightarrow> OpIdx e < length (Expr e) \<Longrightarrow> operated e \<Longrightarrow>
   operatedOK (parseLoop e idx line)"
proof (induction e line and e idx line rule: parse_parseLoop.induct)
  case (1 e line)
  then show ?case
    using wellParsed_append_operand [of e] operated_append_operand [of e] by simp
next
  case (2 e idx)
  then show ?case by (simp add: operatedOK_def)
next
  case (3 e idx c cs)
  note wp = "3.prems"(1) and oi = "3.prems"(2) and op = "3.prems"(3)
  show ?case
  proof (cases "c = CHR ''(''")
    case True
    have child: "wellParsed (Expr e ! OpIdx e)" "operated (Expr e ! OpIdx e)"
      using wp oi op by (simp_all add: wellParsed_child operated_child)
    from parse_wellParsed(1) [OF child(1), of cs]
    obtain k x where r: "parse (Expr e ! OpIdx e) cs = Inr (k, x)" and x: "wellParsed x"
      by (auto simp: parsedOK_def split: sum.splits)
    from "3.IH"(1) [OF True oi child] r have ox: "operated x"
      by (simp add: operatedOK_def)
    have "operatedOK (parseLoop (set_Expr ((Expr e)[OpIdx e := x]) e) (idx + k + 1) (drop k cs))"
      using "3.IH"(2) [OF True oi r refl]
        wellParsed_update [OF wp x, of "OpIdx e"] oi operated_update [OF op ox, of "OpIdx e"]
      by simp
    then show ?thesis
      using True oi r by (simp del: parse.simps)
  next
    case nopen: False
    show ?thesis
    proof (cases "c = CHR '':''")
      case True
      then show ?thesis
        using nopen "3.IH"(3) "3.prems" by simp
    next
      case ncolon: False
      show ?thesis
      proof (cases "c = CHR ''='' \<or> c = CHR ''+'' \<or> c = CHR ''-'' \<or> c = CHR ''*''")
        case True
        have "Expr e \<noteq> []" using oi by auto
        then show ?thesis
          using nopen ncolon "3.IH"(4) [OF nopen ncolon True]
            wellParsed_set_Op [OF wp True] oi operated_set_Op [OF op, of "[c]"] True
          by auto
      next
        case oper: False
        show ?thesis
        proof (cases "c = CHR '' ''")
          case True
          then show ?thesis
            using nopen ncolon oper "3.IH"(5) [OF nopen ncolon oper True]
              wellParsed_next_operand [OF wp oi] operated_next_operand [OF op]
            by simp
        next
          case space: False
          show ?thesis
          proof (cases "c = CHR '')''")
            case True
            then show ?thesis
              using "3.prems" by (simp add: operatedOK_def)
          next
            case close: False
            have "c \<notin> special"
              using nopen ncolon oper space close by (auto simp: special_def)
            then have "wellParsed (append_Lit c (Expr e ! OpIdx e))"
              "operated (append_Lit c (Expr e ! OpIdx e))"
              using "3.prems"
              by (simp_all add: wellParsed_child wellParsed_append_Lit operated_child
                  operated_append_Lit)
            then show ?thesis
              using nopen ncolon oper space close
                "3.IH"(6) [OF nopen ncolon oper space close oi]
                wellParsed_update [OF wp, of _ "OpIdx e"] oi
                operated_update [OF op, of _ "OpIdx e"]
              by simp
          qed
        qed
      qed
    qed
  qed
qed

lemma Parse_operated: "Parse line = Inr e \<Longrightarrow> operated e"
  using parse_operated(1) [OF wellParsed_new operated_new, of "drop 2 line"]
  by (auto simp: Parse_def operatedOK_def split: sum.splits if_splits)

lemma stringHelper_total:
  "operated e \<Longrightarrow> \<exists>s. stringHelper d e = Inr s"
  "\<forall>x \<in> set es. operated x \<Longrightarrow> \<exists>s. stringOperands d op first es = Inr s"
proof (induction d e and d op first es rule: stringHelper_stringOperands.induct)
  case (1 depth op lit oi es)
  show ?case
  proof (cases "op = []")
    case True
    then show ?thesis by simp
  next
    case False
    with "1.prems" have ne: "es \<noteq> []" and all: "\<forall>x \<in> set es. operated x"
      by auto
    show ?thesis
    proof (cases "\<exists>x. es = [x]")
      case True
      then obtain x where x: "es = [x]" by blast
      with all have "operated x" by simp
      with "1.IH" False x obtain s where "stringHelper (depth + 1) x = Inr s"
        by auto
      then show ?thesis
        using False x by simp
    next
      case many: False
      with ne obtain x y ys where es: "es = x # y # ys"
        by (cases es; cases "tl es") auto
      with "1.IH" False all
      have "\<exists>s. stringOperands (depth + 1) (assignOp op es) True es = Inr s"
        by (auto simp del: stringOperands.simps)
      then obtain s where "stringOperands (depth + 1) (assignOp op es) True es = Inr s"
        by blast
      then show ?thesis
        using False es by (simp del: stringOperands.simps)
    qed
  qed
next
  case (2 d op first)
  show ?case by simp
next
  case (3 d op first xop xlit xoi xes rest)
  from "3.prems" have x: "operated (Expression xop xlit xoi xes)"
    and rest: "\<forall>x \<in> set rest. operated x"
    by simp_all
  show ?case
  proof (cases "\<not> first \<and> op = ''+'' \<and> length xes = 1 \<and> xop = ''-''")
    case True
    then obtain y where y: "xes = [y]"
      by (cases xes) auto
    with x have "operated y" by simp
    with "3.IH"(1) True y obtain s where s: "stringHelper d y = Inr s"
      by auto
    from "3.IH"(2) [OF True y refl s] rest
    obtain r where "stringOperands d op False rest = Inr r"
      by auto
    with True y s show ?thesis
      by (simp del: stringHelper.simps)
  next
    case False
    from "3.IH"(3) [OF False] x obtain s
      where s: "stringHelper d (Expression xop xlit xoi xes) = Inr s"
      by auto
    from "3.IH"(4) [OF False s] rest obtain r where "stringOperands d op False rest = Inr r"
      by auto
    with False s show ?thesis
      by (auto simp del: stringHelper.simps)
  qed
qed

lemma body_total: "\<forall>x \<in> set es. operated x \<Longrightarrow> \<exists>b. body es = Inr b"
proof (induction es)
  case Nil
  show ?case by simp
next
  case (Cons e es)
  then obtain b where b: "body es = Inr b" by auto
  from Cons.prems stringHelper_total(1) [of e 0] obtain s where "String e = Inr s"
    by (auto simp: String_def)
  with b show ?case by simp
qed



section \<open>Where the transform length fails\<close>

lemma transformOperands_panics:
  "(\<exists>p. transformOperands m es = Inl p) \<longleftrightarrow> (\<exists>x \<in> set es. \<exists>p. transformLength x = Inl p)"
  by (induction es arbitrary: m) (auto split: sum.splits)

lemma transformLength_panics:
  "(\<exists>p. transformLength e = Inl p) \<longleftrightarrow> hasBadIndex e"
proof (induction e)
  case (Expression op lit oi es)
  show ?case
  proof (cases "suffix '']'' lit")
    case True
    then show ?thesis by (auto split: option.splits)
  next
    case False
    then show ?thesis
      using Expression.IH transformOperands_panics [of 0 es] by auto
  qed
qed

section \<open>When a run ends without output\<close>

text \<open>
  The scanning loop fails on the first statement line of fewer than two characters, and
  on nothing else; the text of a tree that the parser has built is always defined.
\<close>

lemma scanLines_short:
  "l \<in> set (statements constRe lines) \<Longrightarrow> length l < 2 \<Longrightarrow>
   scanLines constRe lines es cs = Inl SliceOutOfRange"
proof (induction lines arbitrary: es cs)
  case Nil
  then show ?case by (simp add: statements_def)
next
  case (Cons line rest)
  show ?case
  proof (cases "constRe line")
    case (Some m)
    with Cons.prems(1) have "l \<in> set (statements constRe rest)"
      by (simp add: statements_def)
    from Cons.IH [OF this Cons.prems(2)] Some show ?thesis
      by (simp split: prod.splits)
  next
    case None
    show ?thesis
    proof (cases "length line < 2")
      case True
      with None show ?thesis by (simp add: Parse_def)
    next
      case False
      then obtain e where e: "Parse line = Inr e"
        using Parse_wellParsed [of line] by auto
      from False Cons.prems None have "l \<in> set (statements constRe rest)"
        by (auto simp: statements_def)
      from Cons.IH [OF this Cons.prems(2)] None e show ?thesis
        by simp
    qed
  qed
qed

lemma scanLines_parsed:
  "\<forall>l \<in> set (statements constRe lines). 2 \<le> length l \<Longrightarrow>
   \<exists>es' cs'. scanLines constRe lines es cs = Inr (es @ es', cs') \<and>
     list_all2 (\<lambda>l e. Parse l = Inr e) (statements constRe lines) es'"
proof (induction lines arbitrary: es cs)
  case Nil
  show ?case by (simp add: statements_def)
next
  case (Cons line rest)
  from Cons.prems have rest: "\<forall>l \<in> set (statements constRe rest). 2 \<le> length l"
    by (simp add: statements_def)
  show ?case
  proof (cases "constRe line")
    case (Some m)
    from Cons.IH [OF rest] Some show ?thesis
      by (simp add: statements_def split: prod.splits)
  next
    case None
    with Cons.prems have "2 \<le> length line"
      by (simp add: statements_def)
    then obtain e where e: "Parse line = Inr e"
      using Parse_wellParsed [of line] by auto
    from Cons.IH [OF rest, of "es @ [e]" cs]
    obtain es' cs' where "scanLines constRe rest (es @ [e]) cs = Inr (es @ e # es', cs')"
      "list_all2 (\<lambda>l e. Parse l = Inr e) (statements constRe rest) es'"
      by auto
    with None e show ?thesis
      by (simp add: statements_def)
  qed
qed

lemma parsed_exists:
  "list_all2 (\<lambda>l e. Parse l = Inr e) ls es \<Longrightarrow>
   (\<exists>x \<in> set es. Q x) \<longleftrightarrow> (\<exists>l \<in> set ls. \<exists>x. Parse l = Inr x \<and> Q x)"
  by (induction ls es rule: list_all2_induct) auto

lemma parsed_first:
  "list_all2 (\<lambda>l e. Parse l = Inr e) ls es \<Longrightarrow>
   (es = [] \<longleftrightarrow> ls = []) \<and> (ls \<noteq> [] \<longrightarrow> Parse (hd ls) = Inr (es ! 0))"
  by (induction ls es rule: list_all2_induct) auto

lemma maxLength_panics_iff:
  "(\<exists>q. maxLength m es = Inl q) \<longleftrightarrow> (\<exists>x \<in> set es. hasBadIndex x)"
proof (induction es arbitrary: m)
  case Nil
  show ?case by simp
next
  case (Cons e es)
  show ?case
  proof (cases "transformLength e")
    case (Inl p)
    then have "hasBadIndex e"
      using transformLength_panics [of e] by auto
    with Inl show ?thesis by (simp add: TransformLength_def)
  next
    case (Inr n)
    then have "\<not> hasBadIndex e"
      using transformLength_panics [of e] by auto
    with Inr Cons.IH show ?thesis by (simp add: TransformLength_def)
  qed
qed

lemma signature_panics_iff:
  "(\<exists>q. signature es = Inl q) \<longleftrightarrow> es = [] \<or> length (Expr (es ! 0)) < 2"
  by (simp add: signature_def)

lemma genSource_panics_iff:
  assumes "\<forall>x \<in> set es. operated x"
  shows "(\<exists>q. genSource es cs = Inl q) \<longleftrightarrow>
     (\<exists>x \<in> set es. hasBadIndex x) \<or> es = [] \<or> length (Expr (es ! 0)) < 2"
proof -
  from body_total [OF assms] obtain b where "body es = Inr b" by blast
  then have "(\<exists>q. genSource es cs = Inl q) \<longleftrightarrow>
      (\<exists>q. maxLength 0 es = Inl q) \<or> (\<exists>q. signature es = Inl q)"
    by (auto simp: genSource_def split: sum.splits)
  then show ?thesis
    by (simp only: maxLength_panics_iff signature_panics_iff)
qed

lemma main_panics_iff:
  "(\<exists>q. main constRe formatSource lines = Inl q) \<longleftrightarrow>
     (\<exists>l \<in> set (statements constRe lines). length l < 2) \<or>
     (\<exists>l \<in> set (statements constRe lines). \<exists>x. Parse l = Inr x \<and> hasBadIndex x) \<or>
     statements constRe lines = [] \<or>
     (\<exists>x. Parse (hd (statements constRe lines)) = Inr x \<and> length (Expr x) < 2) \<or>
     (\<exists>es cs src. scanLines constRe lines [] [] = Inr (es, cs) \<and>
        genSource es cs = Inr src \<and> formatSource src = None)"
proof (cases "\<exists>l \<in> set (statements constRe lines). length l < 2")
  case True
  then obtain l where "l \<in> set (statements constRe lines)" "length l < 2" by blast
  from scanLines_short [OF this, of "[]" "[]"]
  have "main constRe formatSource lines = Inl SliceOutOfRange"
    by (simp add: main_def)
  with True show ?thesis by simp
next
  case False
  then have "\<forall>l \<in> set (statements constRe lines). 2 \<le> length l"
    by auto
  from scanLines_parsed [OF this, of "[]" "[]"]
  obtain es cs where sc: "scanLines constRe lines [] [] = Inr (es, cs)"
    and all: "list_all2 (\<lambda>l e. Parse l = Inr e) (statements constRe lines) es"
    by auto
  have "\<forall>x \<in> set es. operated x"
  proof
    fix x
    assume "x \<in> set es"
    with all obtain l where "Parse l = Inr x"
      by (auto simp: list_all2_conv_all_nth in_set_conv_nth)
    then show "operated x" by (rule Parse_operated)
  qed
  note gen = genSource_panics_iff [OF this, of cs]
  have bad: "(\<exists>x \<in> set es. hasBadIndex x) \<longleftrightarrow>
      (\<exists>l \<in> set (statements constRe lines). \<exists>x. Parse l = Inr x \<and> hasBadIndex x)"
    by (rule parsed_exists [OF all])
  have first: "es = [] \<or> length (Expr (es ! 0)) < 2 \<longleftrightarrow>
      statements constRe lines = [] \<or>
      (\<exists>x. Parse (hd (statements constRe lines)) = Inr x \<and> length (Expr x) < 2)"
    using parsed_first [OF all] by auto
  have "(\<exists>q. main constRe formatSource lines = Inl q) \<longleftrightarrow>
      (\<exists>q. genSource es cs = Inl q) \<or>
      (\<exists>src. genSource es cs = Inr src \<and> formatSource src = None)"
    using sc by (auto simp: main_def split: sum.splits option.splits)
  also have "\<dots> \<longleftrightarrow>
      ((\<exists>x \<in> set es. hasBadIndex x) \<or> (es = [] \<or> length (Expr (es ! 0)) < 2)) \<or>
      (\<exists>es cs src. scanLines constRe lines [] [] = Inr (es, cs) \<and>
         genSource es cs = Inr src \<and> formatSource src = None)"
    using sc gen by auto
  finally show ?thesis
    using False by (simp only: bad first) blast
qed

section \<open>The leaves of a tree in the text that is written\<close>

lemma unpunctuated_Nil [simp]: "unpunctuated [] = []"
  by (simp add: unpunctuated_def)

lemma unpunctuated_append [simp]: "unpunctuated (a @ b) = unpunctuated a @ unpunctuated b"
  by (simp add: unpunctuated_def)

lemma unpunctuated_minus [simp]: "unpunctuated (CHR ''-'' # s) = unpunctuated s"
  by (simp add: unpunctuated_def special_def)

lemma unpunctuated_special: "set s \<subseteq> special \<Longrightarrow> unpunctuated s = []"
  by (auto simp: unpunctuated_def filter_empty_conv)

lemma unpunctuated_literal: "set s \<inter> special = {} \<Longrightarrow> unpunctuated s = s"
  by (auto simp: unpunctuated_def filter_id_conv)

lemma unpunctuated_wrap: "unpunctuated (wrap d s) = unpunctuated s"
  by (simp add: wrap_def unpunctuated_def special_def)

lemma special_ops:
  "op \<in> {[], ''='', ''+'', ''-'', ''*''} \<Longrightarrow> set (assignOp op es) \<subseteq> special"
  by (auto simp: assignOp_def special_def)

lemma stringHelper_literals:
  "wellParsed e \<Longrightarrow> stringHelper d e = Inr s \<Longrightarrow> unpunctuated s = concat (literals e)"
  "\<forall>x \<in> set es. wellParsed x \<Longrightarrow> set op \<subseteq> special \<Longrightarrow>
   stringOperands d op first es = Inr s \<Longrightarrow> unpunctuated s = concat (concat (map literals es))"
proof (induction d e and d op first es arbitrary: s and s rule: stringHelper_stringOperands.induct)
  case (1 depth op lit oi es)
  show ?case
  proof (cases "op = []")
    case True
    with 1 show ?thesis by (simp add: unpunctuated_literal)
  next
    case False
    have ops: "set (assignOp op es) \<subseteq> special"
      using "1.prems"(1) by (intro special_ops) simp
    have kids: "\<forall>x \<in> set es. wellParsed x"
      using "1.prems"(1) by simp
    show ?thesis
    proof (cases es)
      case Nil
      with False "1.prems" show ?thesis
        by (auto simp: unpunctuated_wrap split: if_splits)
    next
      case (Cons x xs)
      show ?thesis
      proof (cases xs)
        case Nil
        with Cons False "1.prems"(2) obtain r where r: "stringHelper (depth + 1) x = Inr r"
          and s: "s = wrap depth (assignOp op es @ r)"
          by (auto split: sum.splits if_splits)
        have "unpunctuated r = concat (literals x)"
          using "1.IH" False Cons Nil kids r
          by (auto split: if_splits)
        then show ?thesis
          using False Cons Nil s ops by (simp add: unpunctuated_wrap unpunctuated_special)
      next
        case (Cons y ys)
        with \<open>es = x # xs\<close> False "1.prems"(2) obtain r
          where r: "stringOperands (depth + 1) (assignOp op es) True es = Inr r"
            and s: "s = wrap depth r"
          by (auto split: sum.splits if_splits)
        have "unpunctuated r = concat (concat (map literals es))"
          using "1.IH" False \<open>es = x # xs\<close> Cons kids ops r
          by (auto split: if_splits)
        then show ?thesis
          using False s by (simp add: unpunctuated_wrap)
      qed
    qed
  qed
next
  case (2 d op first)
  then show ?case by (simp add: unpunctuated_def)
next
  case (3 d op first xop xlit xoi xes rest)
  have opx: "unpunctuated op = []"
    using "3.prems"(2) by (rule unpunctuated_special)
  show ?case
  proof (cases "\<not> first \<and> op = ''+'' \<and> length xes = 1 \<and> xop = ''-''")
    case True
    then obtain y where y: "xes = [y]" by (auto simp: length_Suc_conv)
    from True y "3.prems"(3) obtain r t where r: "stringHelper d y = Inr r"
      and t: "stringOperands d op False rest = Inr t" and s: "s = ''-'' @ r @ t"
      by (auto split: sum.splits)
    have "wellParsed y" using "3.prems"(1) y by simp
    then have a: "unpunctuated r = concat (literals y)"
      using "3.IH"(1) True y r by auto
    have b: "unpunctuated t = concat (concat (map literals rest))"
      using "3.IH"(2) True y r t "3.prems"(1,2) by auto
    show ?thesis
      using True y a b s by simp
  next
    case False
    with "3.prems"(3) obtain r t where r: "stringHelper d (Expression xop xlit xoi xes) = Inr r"
      and t: "stringOperands d op False rest = Inr t"
      and s: "s = (if first then [] else op) @ r @ t"
      by (auto simp del: stringHelper.simps split: sum.splits)
    have a: "unpunctuated r = concat (literals (Expression xop xlit xoi xes))"
      using "3.IH"(3) False r "3.prems"(1) by (auto simp del: stringHelper.simps literals.simps)
    have b: "unpunctuated t = concat (concat (map literals rest))"
      using "3.IH"(4) False r t "3.prems"(1,2) by (auto simp del: stringHelper.simps literals.simps)
    show ?thesis
      using a b s opx by (simp del: stringHelper.simps literals.simps add: unpunctuated_def)
  qed
qed

lemma Gen_idents:
  "Gen e = Inr c \<Longrightarrow> concat (map codeIdents c) = leafIdents e"
  "GenSubs op subs = Inr r \<Longrightarrow> concat (map codeIdents r) = concat (map leafIdents subs)"
proof (induction e and op subs arbitrary: c and r rule: Gen_GenSubs.induct)
  case (1 ident op subs)
  show ?case
  proof (cases "ident = []")
    case False
    with 1 show ?thesis by auto
  next
    case True
    show ?thesis
    proof (cases subs)
      case Nil
      with True "1.prems" show ?thesis by simp
    next
      case (Cons x xs)
      show ?thesis
      proof (cases xs)
        case Nil
        with Cons True "1.prems" "1.IH" show ?thesis
          by (auto split: sum.splits)
      next
        case (Cons y ys)
        with \<open>subs = x # xs\<close> True "1.prems" obtain lt r
          where lt: "Gen x = Inr lt" and r: "GenSubs (genOp op x) (y # ys) = Inr r"
            and c: "c = lt @ r"
          by (auto simp del: GenSubs.simps split: sum.splits)
        have "concat (map codeIdents lt) = leafIdents x"
          using "1.IH" True \<open>subs = x # xs\<close> Cons lt by auto
        moreover have "concat (map codeIdents r) = concat (map leafIdents (y # ys))"
          using "1.IH" True \<open>subs = x # xs\<close> Cons lt r by auto
        ultimately show ?thesis
          using True \<open>subs = x # xs\<close> Cons c by simp
      qed
    qed
  qed
next
  case (2 op)
  then show ?case by simp
next
  case (3 op sub rest)
  from "3.prems" obtain c t where c: "Gen sub = Inr c" and t: "GenSubs op rest = Inr t"
    and r: "r = (if op = ''*'' \<and> length (Sub sub) > 1 then [JOp op, JParens c] @ t
                 else if op = ''+'' \<and> ExprOp sub = ''-'' then c @ t
                 else [JOp op] @ c @ t)"
    by (auto split: sum.splits if_splits)
  have "concat (map codeIdents c) = leafIdents sub"
    using "3.IH"(1) c by simp
  moreover have "concat (map codeIdents t) = concat (map leafIdents rest)"
    using "3.IH"(2) c t by simp
  ultimately show ?case
    using r by simp
qed

section \<open>The transform length of trees with two-letter array names\<close>

lemma indexOf_suffix: "indexOf lit = Some n \<Longrightarrow> suffix '']'' lit"
proof -
  assume a: "indexOf lit = Some n"
  define name where "name = takeWhile (\<lambda>c. c \<noteq> CHR ''['') lit"
  define bracket where "bracket = drop (length name) lit"
  from a have b: "2 \<le> length bracket" and l: "last bracket = CHR '']''"
    by (auto simp: indexOf_def Let_def name_def bracket_def split: if_splits)
  from b have "bracket \<noteq> []" by auto
  then have "last lit = last bracket" and "lit \<noteq> []"
    unfolding bracket_def by (auto simp: last_drop)
  with l show ?thesis by (simp add: suffix_bracket)
qed

lemma indexOf_two_letters:
  assumes "indexOf lit = Some n" "length (takeWhile (\<lambda>c. c \<noteq> CHR ''['') lit) = 2" "n < 2 ^ 64"
  shows "\<not> length lit < 4 \<and> ParseUint (take (length lit - 1 - 3) (drop 3 lit)) = Some n"
proof -
  define bracket where "bracket = drop 2 lit"
  define digits where "digits = butlast (tl bracket)"
  from assms(1,2) have b: "2 \<le> length bracket" and d: "digits \<noteq> []" "list_all isDigit digits"
    and n: "n = decimalVal digits"
    by (auto simp: indexOf_def Let_def bracket_def digits_def split: if_splits)
  from b have len: "4 \<le> length lit" by (simp add: bracket_def)
  have "digits = take (length lit - 1 - 3) (drop 3 lit)"
    by (simp add: digits_def bracket_def butlast_conv_take tl_drop drop_Suc [symmetric]
        numeral_3_eq_3 numeral_2_eq_2)
  with d n assms(3) len show ?thesis
    by (simp add: ParseUint_def)
qed

lemma Max2_max: "Max2 a b = max a b"
  by (auto simp: Max2_def)

lemma fold_max_start: "fold max xs (m::nat) = max m (fold max xs 0)"
proof (induction xs arbitrary: m)
  case Nil
  show ?case by simp
next
  case (Cons x xs)
  show ?case
    using Cons.IH [of "max x m"] Cons.IH [of "max x 0"] by (simp add: max.assoc max.commute)
qed

lemma Max_set_append:
  "Max (set ((m::nat) # xs @ ys)) = Max (set (max m (Max (set (0 # xs))) # ys))"
  by (simp only: Max.set_eq_fold fold_append o_apply fold_max_start [of xs m])

lemma Max_set_start: "Max (set ((m::nat) # xs)) = max m (Max (set (0 # xs)))"
  by (simp only: Max.set_eq_fold fold_max_start [of xs m])

lemma Max_set_split:
  "Max (set ((0::nat) # xs @ ys)) = max (Max (set (0 # xs))) (Max (set (0 # ys)))"
  by (simp only: Max_set_append [of 0 xs ys] max_0L
      Max_set_start [of "Max (set (0 # xs))" ys])

lemma Max_set_bound:
  "(\<forall>n \<in> set xs. n \<le> (b::nat)) \<Longrightarrow> m \<le> b \<Longrightarrow> Max (set (m # xs)) \<le> b"
  by simp

lemma twoLetterIndices_bound:
  "twoLetterIndices e \<Longrightarrow> \<forall>n \<in> set (leafIndices e). n + 1 < 2 ^ 64"
proof (induction e)
  case (Expression op lit oi es)
  show ?case
  proof (cases "suffix '']'' lit")
    case True
    with Expression.prems show ?thesis
      by (auto split: option.splits)
  next
    case False
    then have "indexOf lit = None"
      using indexOf_suffix [of lit] by (cases "indexOf lit") auto
    with False Expression show ?thesis
      by auto
  qed
qed

lemma transformOperands_indices:
  "\<forall>x \<in> set es. transformLength x = Inr (Max (set (0 # leafIndices x))) \<Longrightarrow>
   transformOperands m es = Inr (Max (set (m # concat (map leafIndices es))))"
proof (induction es arbitrary: m)
  case Nil
  show ?case by simp
next
  case (Cons x xs)
  have "transformOperands m (x # xs) =
      Inr (Max (set (max m (Max (set (0 # leafIndices x))) # concat (map leafIndices xs))))"
    using Cons by (simp add: Max2_max)
  then show ?case
    using Max_set_append [of m "leafIndices x" "concat (map leafIndices xs)"] by simp
qed

lemma transformLength_indices:
  "twoLetterIndices e \<Longrightarrow> transformLength e = Inr (Max (set (0 # leafIndices e)))"
proof (induction e)
  case (Expression op lit oi es)
  show ?case
  proof (cases "suffix '']'' lit")
    case True
    with Expression.prems obtain n where n: "indexOf lit = Some n" "n + 1 < 2 ^ 64"
      and es: "es = []" and two: "length (takeWhile (\<lambda>c. c \<noteq> CHR ''['') lit) = 2"
      by (auto split: option.splits)
    from n have "n < 2 ^ 64" by simp
    from indexOf_two_letters [OF n(1) two this] True n es show ?thesis
      by simp
  next
    case False
    then have none: "indexOf lit = None"
      using indexOf_suffix [of lit] by (cases "indexOf lit") auto
    have "\<forall>x \<in> set es. transformLength x = Inr (Max (set (0 # leafIndices x)))"
      using Expression False by simp
    from transformOperands_indices [OF this, of 0] False none show ?thesis
      by simp
  qed
qed

lemma maxLength_indices:
  "\<forall>e \<in> set es. twoLetterIndices e \<Longrightarrow> 0 < m \<or> es \<noteq> [] \<Longrightarrow>
   maxLength m es = Inr (max m (Suc (Max (set (0 # concat (map leafIndices es))))))"
proof (induction es arbitrary: m)
  case Nil
  then show ?case by simp
next
  case (Cons e es)
  let ?n = "Max (set (0 # leafIndices e))"
  have t: "transformLength e = Inr ?n"
    using Cons.prems by (simp add: transformLength_indices)
  have "?n \<le> 2 ^ 64 - 2"
  proof (rule Max_set_bound)
    show "\<forall>n \<in> set (leafIndices e). n \<le> 2 ^ 64 - 2"
      using twoLetterIndices_bound [of e] Cons.prems(1) by fastforce
    show "(0::nat) \<le> 2 ^ 64 - 2" by simp
  qed
  moreover have "(2::nat) \<le> 2 ^ 64" by simp
  ultimately have "?n + 1 < 2 ^ 64" by linarith
  then have T: "TransformLength e = Inr (Suc ?n)"
    using t by (simp add: TransformLength_def)
  have "maxLength (max m (Suc ?n)) es =
      Inr (max (max m (Suc ?n)) (Suc (Max (set (0 # concat (map leafIndices es))))))"
  proof (rule Cons.IH)
    show "\<forall>x \<in> set es. twoLetterIndices x" using Cons.prems(1) by simp
    show "0 < max m (Suc ?n) \<or> es \<noteq> []" by (simp add: less_max_iff_disj)
  qed
  moreover have "Max (set (0 # concat (map leafIndices (e # es)))) =
      max ?n (Max (set (0 # concat (map leafIndices es))))"
    using Max_set_split [of "leafIndices e" "concat (map leafIndices es)"]
    by (simp only: list.map concat.simps)
  ultimately show ?case
    using T by (simp add: Max2_max max.assoc)
qed

lemmas index_defs =
  indexOf_def Let_def isDigit_def decimalVal_def digitVal_def ParseUint_def suffix_bracket

lemma Parse_one_letter:
  "Parse ''(:= T1 a[12])'' =
     Inr (Expression ''='' [] 1 [Expression [] ''T1'' 0 [], Expression [] ''a[12]'' 0 []])"
  by (simp add: parse_defs)

lemma Parse_three_letters:
  "Parse ''(:= T1 abc[7])'' =
     Inr (Expression ''='' [] 1 [Expression [] ''T1'' 0 [], Expression [] ''abc[7]'' 0 []])"
  by (simp add: parse_defs)

lemma maxLength_one_letter:
  "maxLength 0 [Expression ''='' [] 1 [Expression [] ''T1'' 0 [], Expression [] ''a[12]'' 0 []]] =
     Inr 3"
  by (simp add: TransformLength_def Max2_def index_defs)

lemma maxLength_three_letters:
  "maxLength 0 [Expression ''='' [] 1 [Expression [] ''T1'' 0 [], Expression [] ''abc[7]'' 0 []]] =
     Inl NumError"
  by (simp add: TransformLength_def Max2_def index_defs)

lemma indexOf_one_letter: "indexOf ''a[12]'' = Some 12"
  by (simp add: index_defs)

lemma indexOf_three_letters: "indexOf ''abc[7]'' = Some 7"
  by (simp add: index_defs)

lemma Parse_real_output:
  "Parse ''(:= ro[12] (+ ri[3] ii[10]))'' =
     Inr (Expression ''='' [] 1
           [Expression [] ''ro[12]'' 0 [],
            Expression ''+'' [] 1
              [Expression [] ''ri[3]'' 0 [], Expression [] ''ii[10]'' 0 []]])"
  by (simp add: parse_defs)

lemma twoLetterIndices_real_output:
  "twoLetterIndices
     (Expression ''='' [] 1
        [Expression [] ''ro[12]'' 0 [],
         Expression ''+'' [] 1
           [Expression [] ''ri[3]'' 0 [], Expression [] ''ii[10]'' 0 []]])"
  by (simp add: index_defs)

section \<open>Where parentheses are written\<close>




section \<open>The right operand of a multiplication\<close>

text \<open>
  Claim C2. Under a \<open>*\<close> node, an operand after the first that has more than one
  sub-operand is put in parentheses. In the participle variant this is the rule of the
  loop of \<open>Expr.Gen\<close>: the operand's code is wrapped by \<open>Parens\<close>. In \<open>genfft.go\<close> a
  \<open>*\<close> node inside a statement is at depth 1 or more, so its operands are at depth 2 or
  more, where every operation is written between parentheses: the text of the right
  operand is its text without parentheses (its text at depth 1) between \<open>(\<close> and \<open>)\<close>.
  For the statement \<open>(:= T1 (* xi[0] (+ xi[1] xi[2])))\<close> both variants put the sum in
  parentheses.
\<close>

theorem product_operand_in_parentheses:
  "(rest \<noteq> [] \<and> generated x lt \<and> list_all2 generated rest cs \<longrightarrow>
      Gen (MkExpr [] ''*'' (x # rest)) =
        Inr (lt @ concat (map2 (\<lambda>sub c. if length (Sub sub) > 1 then [JOp ''*'', JParens c]
                                         else JOp ''*'' # c) rest cs))) \<and>
   (1 \<le> d \<and> Op rhs \<noteq> [] \<and> stringHelper (d + 1) lhs = Inr rl \<and> stringHelper 1 rhs = Inr b \<longrightarrow>
      stringHelper d (Expression ''*'' lit oi [lhs, rhs]) =
        Inr (wrap d (rl @ ''*'' @ ''('' @ b @ '')''))) \<and>
   (case Parse ''(:= T1 (* xi[0] (+ xi[1] xi[2])))'' of
      Inl p \<Rightarrow> False
    | Inr e \<Rightarrow> String e = Inr ''T1:=xi[0]*(xi[1]+xi[2])'') \<and>
   Gen (MkExpr [] '':=''
         [MkExpr ''T1'' [] [],
          MkExpr [] ''*''
            [MkExpr ''xi[0]'' [] [],
             MkExpr [] ''+'' [MkExpr ''xi[1]'' [] [], MkExpr ''xi[2]'' [] []]]]) =
     Inr [JId ''T1'', JOp '':='', JId ''xi[0]'', JOp ''*'',
          JParens [JId ''xi[1]'', JOp ''+'', JId ''xi[2]'']]"
proof (intro conjI impI)
  assume "rest \<noteq> [] \<and> generated x lt \<and> list_all2 generated rest cs"
  then show "Gen (MkExpr [] ''*'' (x # rest)) =
        Inr (lt @ concat (map2 (\<lambda>sub c. if length (Sub sub) > 1 then [JOp ''*'', JParens c]
                                         else JOp ''*'' # c) rest cs))"
    using Gen_nary [of rest x lt cs "''*''"]
    by (simp add: genOp_def genItems_times)
next
  assume h: "1 \<le> d \<and> Op rhs \<noteq> [] \<and> stringHelper (d + 1) lhs = Inr rl \<and> stringHelper 1 rhs = Inr b"
  then have "stringHelper (d + 1) rhs = Inr (''('' @ b @ '')'')"
    using stringHelper_parens [of rhs "d + 1"] by simp
  then have "list_all2 (rendered (d + 1) (assignOp ''*'' [lhs, rhs])) [rhs] [''('' @ b @ '')'']"
    by (simp add: rendered_def folds_def assignOp_other)
  with h show "stringHelper d (Expression ''*'' lit oi [lhs, rhs]) =
        Inr (wrap d (rl @ ''*'' @ ''('' @ b @ '')''))"
    using stringHelper_nary [of "''*''" "[rhs]" d lhs rl "[''('' @ b @ '')'']" lit oi]
    by (simp add: joinRest_def folds_def assignOp_other)
next
  show "case Parse ''(:= T1 (* xi[0] (+ xi[1] xi[2])))'' of
      Inl p \<Rightarrow> False
    | Inr e \<Rightarrow> String e = Inr ''T1:=xi[0]*(xi[1]+xi[2])''"
    by (simp only: Parse_product_of_sum String_product_of_sum sum.case)
next
  show "Gen (MkExpr [] '':=''
         [MkExpr ''T1'' [] [],
          MkExpr [] ''*''
            [MkExpr ''xi[0]'' [] [],
             MkExpr [] ''+'' [MkExpr ''xi[1]'' [] [], MkExpr ''xi[2]'' [] []]]]) =
     Inr [JId ''T1'', JOp '':='', JId ''xi[0]'', JOp ''*'',
          JParens [JId ''xi[1]'', JOp ''+'', JId ''xi[2]'']]"
    by (rule Gen_product_of_sum)
qed

theorem product_operand_in_parentheses_witness:
  "Gen (MkExpr [] ''*''
         [MkExpr ''xi[0]'' [] [],
          MkExpr [] ''+'' [MkExpr ''xi[1]'' [] [], MkExpr ''xi[2]'' [] []]]) =
     Inr [JId ''xi[0]'', JOp ''*'', JParens [JId ''xi[1]'', JOp ''+'', JId ''xi[2]'']] \<and>
   stringHelper 1
     (Expression ''*'' [] 1
        [Expression [] ''xi[0]'' 0 [],
         Expression ''+'' [] 1 [Expression [] ''xi[1]'' 0 [], Expression [] ''xi[2]'' 0 []]]) =
     Inr ''xi[0]*(xi[1]+xi[2])''"
proof -
  have g: "[MkExpr [] ''+'' [MkExpr ''xi[1]'' [] [], MkExpr ''xi[2]'' [] []]] \<noteq> [] \<and>
      generated (MkExpr ''xi[0]'' [] []) [JId ''xi[0]''] \<and>
      list_all2 generated [MkExpr [] ''+'' [MkExpr ''xi[1]'' [] [], MkExpr ''xi[2]'' [] []]]
        [[JId ''xi[1]'', JOp ''+'', JId ''xi[2]'']]"
    by (simp add: generated_def genOp_def)
  have s: "1 \<le> (1::nat) \<and>
      Op (Expression ''+'' [] 1 [Expression [] ''xi[1]'' 0 [], Expression [] ''xi[2]'' 0 []]) \<noteq> [] \<and>
      stringHelper (1 + 1) (Expression [] ''xi[0]'' 0 []) = Inr ''xi[0]'' \<and>
      stringHelper 1
        (Expression ''+'' [] 1 [Expression [] ''xi[1]'' 0 [], Expression [] ''xi[2]'' 0 []]) =
        Inr ''xi[1]+xi[2]''"
    by (simp add: wrap_def assignOp_def)
  show ?thesis
    using product_operand_in_parentheses [THEN conjunct1, THEN mp, OF g]
      product_operand_in_parentheses [THEN conjunct2, THEN conjunct1, THEN mp, OF s, of "[]" 1]
    by (simp add: wrap_def)
qed

section \<open>Addition of a unary subtraction\<close>

text \<open>
  Under a \<open>+\<close> node with several operands, an operand after the first that is a \<open>-\<close>
  node with one operand is written as a bare \<open>-\<close> followed by the rendering of that one
  operand; the \<open>+\<close> is not written before it, so no \<open>+\<close> is followed by the \<open>-\<close> of
  such an operand. The operands are written in their order. This holds in \<open>genfft.go\<close>,
  at every depth, and in the participle variant. The statement
  \<open>(:= T2 (+ xi[0] (- xi[1])))\<close> is written \<open>T2:=xi[0]-xi[1]\<close> by \<open>genfft.go\<close>, and as the
  tokens \<open>T2 := xi[0] - xi[1]\<close> by the participle variant.
\<close>

lemma addition_folds_unary_minus:
  "(rest \<noteq> [] \<and> stringHelper (d + 1) x = Inr r \<and> list_all2 (rendered (d + 1) ''+'') rest rs \<longrightarrow>
      stringHelper d (Expression ''+'' lit oi (x # rest)) =
        Inr (wrap d (r @ concat (map2 (\<lambda>y s. (if IsUnary y \<and> Op y = ''-'' then ''-'' else ''+'') @ s)
                                   rest rs)))) \<and>
   (subs \<noteq> [] \<and> generated sub lt \<and> list_all2 generatedOperand subs cs \<longrightarrow>
      Gen (MkExpr [] ''+'' (sub # subs)) =
        Inr (lt @ concat (map2 (\<lambda>sub c. if minusOperand sub then JOp ''-'' # c
                                         else if ExprOp sub = ''-'' then c else JOp ''+'' # c)
                            subs cs))) \<and>
   (case Parse ''(:= T2 (+ xi[0] (- xi[1])))'' of
      Inl p \<Rightarrow> False
    | Inr e \<Rightarrow> String e = Inr ''T2:=xi[0]-xi[1]'') \<and>
   Gen (MkExpr [] '':=''
         [MkExpr ''T2'' [] [],
          MkExpr [] ''+'' [MkExpr ''xi[0]'' [] [], MkExpr [] ''-'' [MkExpr ''xi[1]'' [] []]]]) =
     Inr [JId ''T2'', JOp '':='', JId ''xi[0]'', JOp ''-'', JId ''xi[1]'']"
proof (intro conjI impI)
  assume h: "rest \<noteq> [] \<and> stringHelper (d + 1) x = Inr r \<and> list_all2 (rendered (d + 1) ''+'') rest rs"
  have "joinRest ''+'' rest rs =
      concat (map2 (\<lambda>y s. (if IsUnary y \<and> Op y = ''-'' then ''-'' else ''+'') @ s) rest rs)"
    by (simp add: joinRest_def folds_def)
  with h show "stringHelper d (Expression ''+'' lit oi (x # rest)) =
        Inr (wrap d (r @ concat (map2 (\<lambda>y s. (if IsUnary y \<and> Op y = ''-'' then ''-'' else ''+'') @ s)
                                   rest rs)))"
    using stringHelper_nary [of "''+''" rest d x r rs lit oi]
    by (simp add: assignOp_other)
next
  assume h: "subs \<noteq> [] \<and> generated sub lt \<and> list_all2 generatedOperand subs cs"
  then obtain y ys where subs: "subs = y # ys" by (cases subs) auto
  have "Gen (MkExpr [] ''+'' (sub # y # ys)) =
     (case Gen sub of Inl p \<Rightarrow> Inl p
      | Inr lt \<Rightarrow> (case GenSubs ''+'' (y # ys) of
                    Inl p \<Rightarrow> Inl p | Inr r \<Rightarrow> Inr (lt @ r)))"
    by (simp add: genOp_def del: GenSubs.simps cong: sum.case_cong)
  moreover have "Gen sub = Inr lt"
    using h by (simp add: generated_def)
  moreover have "list_all2 generatedOperand subs cs" using h by simp
  ultimately show "Gen (MkExpr [] ''+'' (sub # subs)) =
        Inr (lt @ concat (map2 (\<lambda>sub c. if minusOperand sub then JOp ''-'' # c
                                         else if ExprOp sub = ''-'' then c else JOp ''+'' # c)
                            subs cs))"
    unfolding subs [symmetric]
    by (simp only: GenSubs_plus_operands sum.case)
next
  show "case Parse ''(:= T2 (+ xi[0] (- xi[1])))'' of
      Inl p \<Rightarrow> False
    | Inr e \<Rightarrow> String e = Inr ''T2:=xi[0]-xi[1]''"
    by (simp only: Parse_sum_with_negation String_sum_with_negation sum.case)
next
  show "Gen (MkExpr [] '':=''
         [MkExpr ''T2'' [] [],
          MkExpr [] ''+'' [MkExpr ''xi[0]'' [] [], MkExpr [] ''-'' [MkExpr ''xi[1]'' [] []]]]) =
     Inr [JId ''T2'', JOp '':='', JId ''xi[0]'', JOp ''-'', JId ''xi[1]'']"
    by (rule Gen_sum_with_negation)
qed

lemma Parse_sum_with_negated_sum:
  "Parse ''(:= T2 (+ xi[0] (- (+ xi[1] xi[2]))))'' =
     Inr (Expression ''='' [] 1
           [Expression [] ''T2'' 0 [],
            Expression ''+'' [] 1
              [Expression [] ''xi[0]'' 0 [],
               Expression ''-'' [] 0
                 [Expression ''+'' [] 1
                    [Expression [] ''xi[1]'' 0 [], Expression [] ''xi[2]'' 0 []]]]])"
  by (simp add: parse_defs)

lemma String_sum_with_negated_sum:
  "String (Expression ''='' [] 1
           [Expression [] ''T2'' 0 [],
            Expression ''+'' [] 1
              [Expression [] ''xi[0]'' 0 [],
               Expression ''-'' [] 0
                 [Expression ''+'' [] 1
                    [Expression [] ''xi[1]'' 0 [], Expression [] ''xi[2]'' 0 []]]]]) =
     Inr ''T2:=xi[0]-(xi[1]+xi[2])''"
  by (simp add: String_def wrap_def assignOp_def)

lemma Gen_sum_with_negated_sum:
  "Gen (MkExpr [] '':=''
         [MkExpr ''T2'' [] [],
          MkExpr [] ''+''
            [MkExpr ''xi[0]'' [] [],
             MkExpr [] ''-''
               [MkExpr [] ''+'' [MkExpr ''xi[1]'' [] [], MkExpr ''xi[2]'' [] []]]]]) =
     Inr [JId ''T2'', JOp '':='', JId ''xi[0]'', JOp ''-'', JId ''xi[1]'', JOp ''+'',
          JId ''xi[2]'']"
  by (simp add: genOp_def suffix_bracket)

lemma Gen_difference_plus:
  "Gen (MkExpr [] '':=''
         [MkExpr ''T2'' [] [],
          MkExpr [] ''+''
            [MkExpr [] ''-'' [MkExpr ''xi[0]'' [] [], MkExpr ''xi[1]'' [] []],
             MkExpr ''xi[2]'' [] []]]) =
     Inr [JId ''T2'', JOp '':='', JId ''xi[0]'', JOp ''-'', JId ''xi[1]'', JOp ''+'',
          JId ''xi[2]'']"
  by (simp add: genOp_def suffix_bracket)

text \<open>
  Claim C3. The folding of a unary \<open>-\<close> under \<open>+\<close> writes a bare \<open>-\<close> followed by the
  rendering of the operand of the \<open>-\<close>, and keeps the order of the operands and the
  numeric meaning. In the participle variant the rendering of that operand has no
  parentheses when it is a sum: for \<open>(:= T2 (+ xi[0] (- (+ xi[1] xi[2]))))\<close> the tokens
  are \<open>T2 := xi[0] - xi[1] + xi[2]\<close>, the same as for
  \<open>(:= T2 (+ (- xi[0] xi[1]) xi[2]))\<close>, where \<open>xi[2]\<close> is added and not subtracted.
  \<open>genfft.go\<close> writes \<open>T2:=xi[0]-(xi[1]+xi[2])\<close> for the same line.
\<close>

theorem Gen_negated_sum_without_parentheses:
  "Gen (MkExpr [] '':=''
         [MkExpr ''T2'' [] [],
          MkExpr [] ''+''
            [MkExpr ''xi[0]'' [] [],
             MkExpr [] ''-''
               [MkExpr [] ''+'' [MkExpr ''xi[1]'' [] [], MkExpr ''xi[2]'' [] []]]]]) =
     Inr [JId ''T2'', JOp '':='', JId ''xi[0]'', JOp ''-'', JId ''xi[1]'', JOp ''+'',
          JId ''xi[2]''] \<and>
   Gen (MkExpr [] '':=''
         [MkExpr ''T2'' [] [],
          MkExpr [] ''+''
            [MkExpr [] ''-'' [MkExpr ''xi[0]'' [] [], MkExpr ''xi[1]'' [] []],
             MkExpr ''xi[2]'' [] []]]) =
     Inr [JId ''T2'', JOp '':='', JId ''xi[0]'', JOp ''-'', JId ''xi[1]'', JOp ''+'',
          JId ''xi[2]''] \<and>
   Parse ''(:= T2 (+ xi[0] (- (+ xi[1] xi[2]))))'' =
     Inr (Expression ''='' [] 1
           [Expression [] ''T2'' 0 [],
            Expression ''+'' [] 1
              [Expression [] ''xi[0]'' 0 [],
               Expression ''-'' [] 0
                 [Expression ''+'' [] 1
                    [Expression [] ''xi[1]'' 0 [], Expression [] ''xi[2]'' 0 []]]]]) \<and>
   String (Expression ''='' [] 1
           [Expression [] ''T2'' 0 [],
            Expression ''+'' [] 1
              [Expression [] ''xi[0]'' 0 [],
               Expression ''-'' [] 0
                 [Expression ''+'' [] 1
                    [Expression [] ''xi[1]'' 0 [], Expression [] ''xi[2]'' 0 []]]]]) =
     Inr ''T2:=xi[0]-(xi[1]+xi[2])''"
  by (simp only: Gen_sum_with_negated_sum Gen_difference_plus Parse_sum_with_negated_sum
      String_sum_with_negated_sum simp_thms)

section \<open>The signature and the imaginary constant\<close>

text \<open>
  Claim C4 says that the kernel has the four real arrays when an input \<open>ri[...]\<close>
  occurs and the two complex arrays otherwise, and that the imaginary constant is there
  in the complex case only. \<open>genfft.go\<close> does otherwise. For the program
  \<open>(:= T1 ri[0])\<close> it writes the real signature and the constant \<open>I = 1i\<close>. For the
  program \<open>(:= T1 (+ xi[0] xi[1]))\<close>, whose inputs are \<open>xi\<close> only, it writes the real
  signature, since the second operand of the first statement is not the literal \<open>xi[0]\<close>.
\<close>

theorem signature_inference_counterexample:
  "Parse ''(:= T1 ri[0])'' =
     Inr (Expression ''='' [] 1 [Expression [] ''T1'' 0 [], Expression [] ''ri[0]'' 0 []]) \<and>
   genSource [Expression ''='' [] 1 [Expression [] ''T1'' 0 [], Expression [] ''ri[0]'' 0 []]] [] =
     Inr (''package dft'' @ newline @ ''const N = 1'' @ newline @ newline @
          ''const ('' @ newline @ ''I = 1i'' @ newline @ '')'' @ newline @
          ''func DFT(ri, ii, ro, io []float64) {'' @ newline @
          ''T1:=ri[0]'' @ newline @ ''}'') \<and>
   Parse ''(:= T1 (+ xi[0] xi[1]))'' =
     Inr (Expression ''='' [] 1
           [Expression [] ''T1'' 0 [],
            Expression ''+'' [] 1
              [Expression [] ''xi[0]'' 0 [], Expression [] ''xi[1]'' 0 []]]) \<and>
   genSource
     [Expression ''='' [] 1
        [Expression [] ''T1'' 0 [],
         Expression ''+'' [] 1 [Expression [] ''xi[0]'' 0 [], Expression [] ''xi[1]'' 0 []]]] [] =
     Inr (''package dft'' @ newline @ ''const N = 2'' @ newline @ newline @
          ''const ('' @ newline @ ''I = 1i'' @ newline @ '')'' @ newline @
          ''func DFT(ri, ii, ro, io []float64) {'' @ newline @
          ''T1:=xi[0]+xi[1]'' @ newline @ ''}'')"
  by (simp only: Parse_real_input genSource_real_input Parse_sum genSource_complex_sum simp_thms)

text \<open>
  Claim C4 as amended. In the participle variant, \<open>Program.Gen\<close> decides on the set of
  base names of the bracketed identifiers of all statements: when \<open>ri\<close> is among them the
  function has the parameters \<open>ri, ii, ro, io\<close> of element type \<open>float64\<close> and the
  constants are those of the program; otherwise it has the parameters \<open>xi, xo\<close> of element
  type \<open>complex128\<close> and the constant \<open>I = 1i\<close> comes first. In \<open>genfft.go\<close> the constant
  block starts with \<open>I = 1i\<close> whatever the signature, and the signature is the complex
  one exactly when the second operand of the first statement is the literal \<open>xi[0]\<close>.
\<close>

theorem signature_inference:
  "(ProgramGen p name = Inr f \<longrightarrow>
      (''ri'' \<in> argSet p \<longleftrightarrow>
         (\<exists>s \<in> set (Statements p). \<exists>i \<in> set (identifiers s). indexedBase i = Some ''ri'')) \<and>
      (if ''ri'' \<in> argSet p
       then Args f = [''ri'', ''ii'', ''ro'', ''io''] \<and> ArgElem f = Float64 \<and>
            ConstDefs f = map ConstantGen (Constants p)
       else Args f = [''xi'', ''xo''] \<and> ArgElem f = Complex128 \<and>
            ConstDefs f =
              ConstantGen \<lparr>Name = ''I'', Value = ''1i''\<rparr> # map ConstantGen (Constants p))) \<and>
   (genSource es cs = Inr src \<longrightarrow>
      (\<exists>n b. src =
         ''package dft'' @ newline @ ''const N = '' @ decimal n @ newline @ newline @
         ''const ('' @ newline @ ''I = 1i'' @ newline @
         concat (map (\<lambda>(name, val). name @ '' = '' @ val @ newline) cs) @ '')'' @ newline @
         (if Lit (Expr (es ! 0) ! 1) = ''xi[0]''
          then ''func DFT(xi, xo []complex128) {''
          else ''func DFT(ri, ii, ro, io []float64) {'') @ newline @ b @ ''}''))"
proof (intro conjI impI)
  show "''ri'' \<in> argSet p \<longleftrightarrow>
      (\<exists>s \<in> set (Statements p). \<exists>i \<in> set (identifiers s). indexedBase i = Some ''ri'')"
    by (rule argSet_identifiers)
next
  assume "ProgramGen p name = Inr f"
  then show "if ''ri'' \<in> argSet p
       then Args f = [''ri'', ''ii'', ''ro'', ''io''] \<and> ArgElem f = Float64 \<and>
            ConstDefs f = map ConstantGen (Constants p)
       else Args f = [''xi'', ''xo''] \<and> ArgElem f = Complex128 \<and>
            ConstDefs f =
              ConstantGen \<lparr>Name = ''I'', Value = ''1i''\<rparr> # map ConstantGen (Constants p)"
    by (auto simp: ProgramGen_def genConstants_def split: sum.splits)
next
  assume "genSource es cs = Inr src"
  then obtain n sig b where sig: "signature es = Inr sig"
    and src: "src = ''package dft'' @ newline @ ''const N = '' @ decimal n @ newline @ newline @
           constBlock cs @ sig @ b @ ''}''"
    using genSource_Inr by blast
  show "\<exists>n b. src =
         ''package dft'' @ newline @ ''const N = '' @ decimal n @ newline @ newline @
         ''const ('' @ newline @ ''I = 1i'' @ newline @
         concat (map (\<lambda>(name, val). name @ '' = '' @ val @ newline) cs) @ '')'' @ newline @
         (if Lit (Expr (es ! 0) ! 1) = ''xi[0]''
          then ''func DFT(xi, xo []complex128) {''
          else ''func DFT(ri, ii, ro, io []float64) {'') @ newline @ b @ ''}''"
    unfolding src signature_Inr [OF sig] constBlock_def
    by (intro exI [of _ n] exI [of _ b]) simp
qed

text \<open>The theorem at the two example programs and at \<open>(:= T1 ri[0])\<close>.\<close>

theorem signature_inference_witness:
  "(\<exists>f. ProgramGen complexProgram ''DftCmplx2'' = Inr f \<and>
        Args f = [''xi'', ''xo''] \<and> ArgElem f = Complex128 \<and>
        ConstDefs f = [[JId ''I'', JOp ''='', JId ''1i''], [JId ''KP5'', JOp ''='', JId ''+0.5'']]) \<and>
   (\<exists>f. ProgramGen realProgram ''DftFloat2'' = Inr f \<and>
        Args f = [''ri'', ''ii'', ''ro'', ''io''] \<and> ArgElem f = Float64 \<and>
        ConstDefs f = [[JId ''KP5'', JOp ''='', JId ''+0.5'']]) \<and>
   (\<exists>n b. ''package dft'' @ newline @ ''const N = 1'' @ newline @ newline @
          ''const ('' @ newline @ ''I = 1i'' @ newline @ '')'' @ newline @
          ''func DFT(ri, ii, ro, io []float64) {'' @ newline @
          ''T1:=ri[0]'' @ newline @ ''}'' =
         ''package dft'' @ newline @ ''const N = '' @ decimal n @ newline @ newline @
         ''const ('' @ newline @ ''I = 1i'' @ newline @ '')'' @ newline @
         ''func DFT(ri, ii, ro, io []float64) {'' @ newline @ b @ ''}'')"
proof -
  obtain fc where fc: "ProgramGen complexProgram ''DftCmplx2'' = Inr fc"
    using ProgramGen_defined [OF GenStatements_complexProgram] by blast
  have ac: "''ri'' \<notin> argSet complexProgram"
    by (simp add: argSet_def complexProgram_def)
  obtain fr where fr: "ProgramGen realProgram ''DftFloat2'' = Inr fr"
    using ProgramGen_defined [OF GenStatements_realProgram] by blast
  have ar: "''ri'' \<in> argSet realProgram"
    by (simp add: argSet_def realProgram_def)
  have "Args fc = [''xi'', ''xo''] \<and> ArgElem fc = Complex128 \<and>
        ConstDefs fc = [[JId ''I'', JOp ''='', JId ''1i''], [JId ''KP5'', JOp ''='', JId ''+0.5'']]"
    using signature_inference [THEN conjunct1, THEN mp, OF fc] ac
    by (simp add: ConstantGen_def complexProgram_def)
  moreover have "Args fr = [''ri'', ''ii'', ''ro'', ''io''] \<and> ArgElem fr = Float64 \<and>
        ConstDefs fr = [[JId ''KP5'', JOp ''='', JId ''+0.5'']]"
    using signature_inference [THEN conjunct1, THEN mp, OF fr] ar
    by (simp add: ConstantGen_def realProgram_def)
  moreover have "\<exists>n b. ''package dft'' @ newline @ ''const N = 1'' @ newline @ newline @
          ''const ('' @ newline @ ''I = 1i'' @ newline @ '')'' @ newline @
          ''func DFT(ri, ii, ro, io []float64) {'' @ newline @
          ''T1:=ri[0]'' @ newline @ ''}'' =
         ''package dft'' @ newline @ ''const N = '' @ decimal n @ newline @ newline @
         ''const ('' @ newline @ ''I = 1i'' @ newline @ '')'' @ newline @
         ''func DFT(ri, ii, ro, io []float64) {'' @ newline @ b @ ''}''"
    using signature_inference [THEN conjunct2, THEN mp, OF genSource_real_input]
    by simp
  ultimately show ?thesis using fc fr by blast
qed

section \<open>The kernel size\<close>

text \<open>
  Claim C5 says that the size \<open>N\<close> is one more than the largest index of the
  identifiers \<open>name[digits]\<close> of the program, for names of any length.
  \<open>transformLength\<close> reads the index at a fixed place, from the fourth character of the
  literal on. For \<open>(:= T1 a[12])\<close>, where the index is 12, it reads \<open>2\<close> and \<open>N\<close> is 3,
  not 13; for \<open>(:= T1 abc[7])\<close> it reads \<open>[7\<close> and \<open>main\<close> ends in a panic.
\<close>

theorem transform_size_counterexample:
  "Parse ''(:= T1 a[12])'' =
     Inr (Expression ''='' [] 1 [Expression [] ''T1'' 0 [], Expression [] ''a[12]'' 0 []]) \<and>
   indexOf ''a[12]'' = Some 12 \<and>
   maxLength 0 [Expression ''='' [] 1 [Expression [] ''T1'' 0 [], Expression [] ''a[12]'' 0 []]] =
     Inr 3 \<and>
   Parse ''(:= T1 abc[7])'' =
     Inr (Expression ''='' [] 1 [Expression [] ''T1'' 0 [], Expression [] ''abc[7]'' 0 []]) \<and>
   indexOf ''abc[7]'' = Some 7 \<and>
   maxLength 0 [Expression ''='' [] 1 [Expression [] ''T1'' 0 [], Expression [] ''abc[7]'' 0 []]] =
     Inl NumError"
  by (simp only: Parse_one_letter indexOf_one_letter maxLength_one_letter Parse_three_letters
      indexOf_three_letters maxLength_three_letters simp_thms)

text \<open>
  Claim C5 as amended. For a program with at least one statement, in which every
  literal that ends in \<open>]\<close> is an identifier \<open>name[digits]\<close> with a name of two
  characters and an index below \<open>2^64 - 1\<close>, the size \<open>N\<close> that \<open>main\<close> computes is one
  more than the largest index of the program, and 1 when the program has no index.
  This \<open>N\<close> is the number that the generated text declares.
\<close>

theorem transform_size_two_letter_names:
  "(es \<noteq> [] \<and> (\<forall>e \<in> set es. twoLetterIndices e) \<longrightarrow>
      maxLength 0 es = Inr (1 + Max (set (0 # concat (map leafIndices es))))) \<and>
   (genSource es cs = Inr src \<and> maxLength 0 es = Inr n \<longrightarrow>
      prefix (''package dft'' @ newline @ ''const N = '' @ decimal n @ newline) src)"
proof (intro conjI impI)
  assume "es \<noteq> [] \<and> (\<forall>e \<in> set es. twoLetterIndices e)"
  then show "maxLength 0 es = Inr (1 + Max (set (0 # concat (map leafIndices es))))"
    using maxLength_indices [of es 0] by simp
next
  assume h: "genSource es cs = Inr src \<and> maxLength 0 es = Inr n"
  then obtain n' sig b where "maxLength 0 es = Inr n'"
    and src: "src = ''package dft'' @ newline @ ''const N = '' @ decimal n' @ newline @ newline @
           constBlock cs @ sig @ b @ ''}''"
    using genSource_Inr [of es cs src] by blast
  with h have "n' = n" by simp
  then show "prefix (''package dft'' @ newline @ ''const N = '' @ decimal n @ newline) src"
    unfolding src by (simp add: prefix_def)
qed

text \<open>
  The theorem at the statement \<open>(:= ro[12] (+ ri[3] ii[10]))\<close>, of size 13, and at the
  text generated for \<open>(:= T1 ri[0])\<close>.
\<close>

theorem transform_size_two_letter_names_witness:
  "Parse ''(:= ro[12] (+ ri[3] ii[10]))'' =
     Inr (Expression ''='' [] 1
           [Expression [] ''ro[12]'' 0 [],
            Expression ''+'' [] 1
              [Expression [] ''ri[3]'' 0 [], Expression [] ''ii[10]'' 0 []]]) \<and>
   maxLength 0
     [Expression ''='' [] 1
        [Expression [] ''ro[12]'' 0 [],
         Expression ''+'' [] 1
           [Expression [] ''ri[3]'' 0 [], Expression [] ''ii[10]'' 0 []]]] = Inr 13 \<and>
   prefix (''package dft'' @ newline @ ''const N = 1'' @ newline)
     (''package dft'' @ newline @ ''const N = 1'' @ newline @ newline @
      ''const ('' @ newline @ ''I = 1i'' @ newline @ '')'' @ newline @
      ''func DFT(ri, ii, ro, io []float64) {'' @ newline @
      ''T1:=ri[0]'' @ newline @ ''}'')"
proof -
  have a: "[Expression ''='' [] 1
        [Expression [] ''ro[12]'' 0 [],
         Expression ''+'' [] 1
           [Expression [] ''ri[3]'' 0 [], Expression [] ''ii[10]'' 0 []]]] \<noteq> [] \<and>
      (\<forall>e \<in> set [Expression ''='' [] 1
        [Expression [] ''ro[12]'' 0 [],
         Expression ''+'' [] 1
           [Expression [] ''ri[3]'' 0 [], Expression [] ''ii[10]'' 0 []]]]. twoLetterIndices e)"
    using twoLetterIndices_real_output by simp
  have b: "genSource
        [Expression ''='' [] 1 [Expression [] ''T1'' 0 [], Expression [] ''ri[0]'' 0 []]] [] =
      Inr (''package dft'' @ newline @ ''const N = 1'' @ newline @ newline @
          ''const ('' @ newline @ ''I = 1i'' @ newline @ '')'' @ newline @
          ''func DFT(ri, ii, ro, io []float64) {'' @ newline @
          ''T1:=ri[0]'' @ newline @ ''}'') \<and>
      maxLength 0 [Expression ''='' [] 1 [Expression [] ''T1'' 0 [], Expression [] ''ri[0]'' 0 []]] =
      Inr 1"
    using genSource_real_input
    by (simp add: TransformLength_def Max2_def index_defs)
  show ?thesis
    using transform_size_two_letter_names [THEN conjunct1, THEN mp, OF a]
      transform_size_two_letter_names [THEN conjunct2, THEN mp, OF b]
      Parse_real_output
    by (simp add: index_defs decimal_1)
qed

section \<open>Declaration or plain assignment\<close>

text \<open>
  What the two emitters write between the target of a statement and its value.
  \<open>genfft.go\<close> writes \<open>:=\<close> when the literal of the target starts with \<open>T\<close> and \<open>=\<close>
  otherwise; the participle variant writes \<open>=\<close> when the identifier of the target ends
  in \<open>]\<close> and \<open>:=\<close> otherwise. They agree on a temporary \<open>T\<close> followed by digits
  (\<open>:=\<close>) and on an indexed element of an array whose name does not start with \<open>T\<close>
  (\<open>=\<close>).
\<close>

lemma binding_or_assignment:
  "(Op target = [] \<and> stringHelper 1 val = Inr rv \<longrightarrow>
      String (Expression ''='' lit oi [target, val]) =
        Inr (Lit target @ (if prefix ''T'' (Lit target) then '':='' else ''='') @ rv)) \<and>
   (t \<noteq> [] \<and> generated v cv \<longrightarrow>
      Gen (MkExpr [] '':='' [MkExpr t tOp tSub, v]) =
        Inr (JId t # JOp (if suffix '']'' t then ''='' else '':='') # cv))"
proof (intro conjI impI)
  assume h: "Op target = [] \<and> stringHelper 1 val = Inr rv"
  then have t: "stringHelper (0 + 1) target = Inr (Lit target)"
    by (cases target) simp
  have "\<not> folds (assignOp ''='' [target, val]) val"
    by (simp add: folds_def assignOp_def)
  with h have "list_all2 (rendered (0 + 1) (assignOp ''='' [target, val])) [val] [rv]"
    by (simp add: rendered_def)
  from stringHelper_nary [OF _ _ t this, where lit = lit and oi = oi]
  show "String (Expression ''='' lit oi [target, val]) =
      Inr (Lit target @ (if prefix ''T'' (Lit target) then '':='' else ''='') @ rv)"
    by (simp add: String_def wrap_def joinRest_def folds_def assignOp_def)
next
  assume h: "t \<noteq> [] \<and> generated v cv"
  then have "generated (MkExpr t tOp tSub) [JId t]"
    by (simp add: generated_def)
  from Gen_nary [OF _ this, where rest = "[v]" and cs = "[cv]" and op = "'':=''"] h
  show "Gen (MkExpr [] '':='' [MkExpr t tOp tSub, v]) =
      Inr (JId t # JOp (if suffix '']'' t then ''='' else '':='') # cv)"
    by (simp add: genOp_def genItems_assign)
qed


section \<open>The order and the grouping of the operands\<close>

text \<open>
  The operands of a \<open>+\<close> or \<open>-\<close> node with several operands are written in the order
  in which they were parsed, in both variants: the text of the node is the text of its
  first operand followed by the texts of the others in their order, each behind its
  operator (or, for the folded operand of an addition, behind a bare \<open>-\<close>). For a whole
  statement, the text that \<open>genfft.go\<close> writes for a parsed line, without the characters
  of operators, parentheses and spaces, is the sequence of the literals of the tree from
  left to right, and the identifiers in the code of the participle variant are those of
  the tree from left to right. \<open>genfft.go\<close> keeps the grouping too: an operand that is an
  operation, under a node inside a statement, is written between parentheses.
\<close>

lemma operand_order_is_kept:
  "((op = ''+'' \<or> op = ''-'') \<and> rest \<noteq> [] \<and> stringHelper (d + 1) x = Inr r \<and>
    list_all2 (rendered (d + 1) op) rest rs \<longrightarrow>
      stringHelper d (Expression op lit oi (x # rest)) = Inr (wrap d (r @ joinRest op rest rs))) \<and>
   ((gop = ''+'' \<or> gop = ''-'') \<and> subs \<noteq> [] \<and> generated sub lt \<and>
    list_all2 generated subs cs \<longrightarrow>
      Gen (MkExpr [] gop (sub # subs)) = Inr (lt @ concat (map2 (genItems gop) subs cs))) \<and>
   (Parse line = Inr e \<and> String e = Inr s \<longrightarrow> unpunctuated s = concat (literals e)) \<and>
   (Gen g = Inr c \<longrightarrow> concat (map codeIdents c) = leafIdents g) \<and>
   (Op y \<noteq> [] \<and> 1 \<le> k \<longrightarrow>
      stringHelper (k + 1) y =
        (case stringHelper 1 y of Inl p \<Rightarrow> Inl p | Inr b \<Rightarrow> Inr (''('' @ b @ '')'')))"
proof (intro conjI impI)
  assume h: "(op = ''+'' \<or> op = ''-'') \<and> rest \<noteq> [] \<and> stringHelper (d + 1) x = Inr r \<and>
    list_all2 (rendered (d + 1) op) rest rs"
  then have "assignOp op (x # rest) = op"
    by (auto simp: assignOp_def)
  with h show "stringHelper d (Expression op lit oi (x # rest)) =
      Inr (wrap d (r @ joinRest op rest rs))"
    using stringHelper_nary [of op rest d x r rs lit oi] by auto
next
  assume h: "(gop = ''+'' \<or> gop = ''-'') \<and> subs \<noteq> [] \<and> generated sub lt \<and>
    list_all2 generated subs cs"
  then have "genOp gop sub = gop"
    by (auto simp: genOp_def)
  with h show "Gen (MkExpr [] gop (sub # subs)) =
      Inr (lt @ concat (map2 (genItems gop) subs cs))"
    using Gen_nary [of subs sub lt cs gop] by simp
next
  assume h: "Parse line = Inr e \<and> String e = Inr s"
  then have "2 \<le> length line"
    by (auto simp: Parse_def split: if_splits)
  then have "wellParsed e"
    using Parse_wellParsed [of line] h by auto
  with h show "unpunctuated s = concat (literals e)"
    using stringHelper_literals(1) [of e 0 s] by (simp add: String_def)
next
  assume "Gen g = Inr c"
  then show "concat (map codeIdents c) = leafIdents g"
    by (rule Gen_idents(1))
next
  assume "Op y \<noteq> [] \<and> 1 \<le> k"
  then show "stringHelper (k + 1) y =
      (case stringHelper 1 y of Inl p \<Rightarrow> Inl p | Inr b \<Rightarrow> Inr (''('' @ b @ '')''))"
    using stringHelper_parens [of y "k + 1"] by simp
qed


lemma Parse_difference_of_sum:
  "Parse ''(:= T1 (- xi[0] (+ xi[1] xi[2])))'' =
     Inr (Expression ''='' [] 1
           [Expression [] ''T1'' 0 [],
            Expression ''-'' [] 1
              [Expression [] ''xi[0]'' 0 [],
               Expression ''+'' [] 1
                 [Expression [] ''xi[1]'' 0 [], Expression [] ''xi[2]'' 0 []]]])"
  by (simp add: parse_defs)

lemma String_difference_of_sum:
  "String (Expression ''='' [] 1
           [Expression [] ''T1'' 0 [],
            Expression ''-'' [] 1
              [Expression [] ''xi[0]'' 0 [],
               Expression ''+'' [] 1
                 [Expression [] ''xi[1]'' 0 [], Expression [] ''xi[2]'' 0 []]]]) =
     Inr ''T1:=xi[0]-(xi[1]+xi[2])''"
  by (simp add: String_def wrap_def assignOp_def)

lemma Gen_difference_of_sum:
  "Gen (MkExpr [] '':=''
         [MkExpr ''T1'' [] [],
          MkExpr [] ''-''
            [MkExpr ''xi[0]'' [] [],
             MkExpr [] ''+'' [MkExpr ''xi[1]'' [] [], MkExpr ''xi[2]'' [] []]]]) =
     Inr [JId ''T1'', JOp '':='', JId ''xi[0]'', JOp ''-'', JId ''xi[1]'', JOp ''+'',
          JId ''xi[2]'']"
  by (simp add: genOp_def suffix_bracket)

lemma Gen_sum_of_difference:
  "Gen (MkExpr [] '':=''
         [MkExpr ''T1'' [] [],
          MkExpr [] ''+''
            [MkExpr [] ''-'' [MkExpr ''xi[0]'' [] [], MkExpr ''xi[1]'' [] []],
             MkExpr ''xi[2]'' [] []]]) =
     Inr [JId ''T1'', JOp '':='', JId ''xi[0]'', JOp ''-'', JId ''xi[1]'', JOp ''+'',
          JId ''xi[2]'']"
  by (simp add: genOp_def suffix_bracket)

text \<open>
  Claim C7. The operands of a \<open>+\<close> or \<open>-\<close> node are neither reordered nor
  re-associated. The participle variant does not keep the grouping of
  \<open>(:= T1 (- xi[0] (+ xi[1] xi[2])))\<close>: it writes the tokens
  \<open>T1 := xi[0] - xi[1] + xi[2]\<close>, which are also what it writes for
  \<open>(:= T1 (+ (- xi[0] xi[1]) xi[2]))\<close>, where \<open>genfft.go\<close> writes
  \<open>T1:=xi[0]-(xi[1]+xi[2])\<close> for the same line.
\<close>

theorem Gen_loses_grouping:
  "Gen (MkExpr [] '':=''
         [MkExpr ''T1'' [] [],
          MkExpr [] ''-''
            [MkExpr ''xi[0]'' [] [],
             MkExpr [] ''+'' [MkExpr ''xi[1]'' [] [], MkExpr ''xi[2]'' [] []]]]) =
     Inr [JId ''T1'', JOp '':='', JId ''xi[0]'', JOp ''-'', JId ''xi[1]'', JOp ''+'',
          JId ''xi[2]''] \<and>
   Gen (MkExpr [] '':=''
         [MkExpr ''T1'' [] [],
          MkExpr [] ''+''
            [MkExpr [] ''-'' [MkExpr ''xi[0]'' [] [], MkExpr ''xi[1]'' [] []],
             MkExpr ''xi[2]'' [] []]]) =
     Inr [JId ''T1'', JOp '':='', JId ''xi[0]'', JOp ''-'', JId ''xi[1]'', JOp ''+'',
          JId ''xi[2]''] \<and>
   Parse ''(:= T1 (- xi[0] (+ xi[1] xi[2])))'' =
     Inr (Expression ''='' [] 1
           [Expression [] ''T1'' 0 [],
            Expression ''-'' [] 1
              [Expression [] ''xi[0]'' 0 [],
               Expression ''+'' [] 1
                 [Expression [] ''xi[1]'' 0 [], Expression [] ''xi[2]'' 0 []]]]) \<and>
   String (Expression ''='' [] 1
           [Expression [] ''T1'' 0 [],
            Expression ''-'' [] 1
              [Expression [] ''xi[0]'' 0 [],
               Expression ''+'' [] 1
                 [Expression [] ''xi[1]'' 0 [], Expression [] ''xi[2]'' 0 []]]]) =
     Inr ''T1:=xi[0]-(xi[1]+xi[2])''"
  by (simp only: Gen_difference_of_sum Gen_sum_of_difference Parse_difference_of_sum
      String_difference_of_sum simp_thms)

section \<open>Lines outside the grammar\<close>

text \<open>
  Claim C8 says that parsing fails, and the job aborts with no output, on unbalanced
  parentheses, on an unknown operator symbol and on a bad index suffix. The parser of
  \<open>genfft.go\<close> has no failure of that kind. The line \<open>(:= T1 (+ xi[0] xi[1]\<close>, two
  closing parentheses short, gives the tree of the balanced line, and \<open>main\<close> writes the
  kernel for it. In the line \<open>(:/ T1 xi[0])\<close> the symbol \<open>/\<close> stands where the operator
  is expected; it becomes the literal of an operand of a node without operator, and
  \<open>main\<close> writes a kernel with an empty statement line.
\<close>

theorem malformed_line_counterexample:
  "Parse ''(:= T1 (+ xi[0] xi[1]'' =
     Inr (Expression ''='' [] 1
           [Expression [] ''T1'' 0 [],
            Expression ''+'' [] 1
              [Expression [] ''xi[0]'' 0 [], Expression [] ''xi[1]'' 0 []]]) \<and>
   main constRe_KP5 Some [''(:= T1 (+ xi[0] xi[1]''] =
     Inr (''package dft'' @ newline @ ''const N = 2'' @ newline @ newline @
          ''const ('' @ newline @ ''I = 1i'' @ newline @ '')'' @ newline @
          ''func DFT(ri, ii, ro, io []float64) {'' @ newline @
          ''T1:=xi[0]+xi[1]'' @ newline @ ''}'') \<and>
   Parse ''(:/ T1 xi[0])'' =
     Inr (Expression [] [] 2
           [Expression [] ''/'' 0 [], Expression [] ''T1'' 0 [], Expression [] ''xi[0]'' 0 []]) \<and>
   main constRe_KP5 Some [''(:/ T1 xi[0])''] =
     Inr (''package dft'' @ newline @ ''const N = 1'' @ newline @ newline @
          ''const ('' @ newline @ ''I = 1i'' @ newline @ '')'' @ newline @
          ''func DFT(ri, ii, ro, io []float64) {'' @ newline @
          newline @ ''}'')"
  by (simp only: Parse_unbalanced main_unbalanced Parse_operator_slash main_operator_slash
      simp_thms)

text \<open>
  Claim C8 as amended. \<open>Parse\<close> gives a tree for every line of two characters or more,
  whatever its parentheses and its symbols, and panics on a shorter line, which has no
  \<open>line[2:]\<close>. \<open>transformLength\<close> panics exactly on the trees with a bad index. A run of
  \<open>main\<close> ends without output exactly when one of these holds: a statement line has
  fewer than two characters; the tree of a statement has a bad index; there is no
  statement, or the tree of the first statement has fewer than two operands; or the
  formatter rejects the text that was generated. A line with unbalanced parentheses or
  with an unknown operator symbol ends the run only through one of these.
\<close>

theorem job_aborts_exactly_when:
  "(2 \<le> length line \<longrightarrow> (\<exists>e. Parse line = Inr e)) \<and>
   (length line < 2 \<longrightarrow> Parse line = Inl SliceOutOfRange) \<and>
   ((\<exists>p. transformLength e = Inl p) \<longleftrightarrow> hasBadIndex e) \<and>
   ((\<exists>q. main constRe formatSource lines = Inl q) \<longleftrightarrow>
      (\<exists>l \<in> set (statements constRe lines). length l < 2) \<or>
      (\<exists>l \<in> set (statements constRe lines). \<exists>x. Parse l = Inr x \<and> hasBadIndex x) \<or>
      statements constRe lines = [] \<or>
      (\<exists>x. Parse (hd (statements constRe lines)) = Inr x \<and> length (Expr x) < 2) \<or>
      (\<exists>es cs src. scanLines constRe lines [] [] = Inr (es, cs) \<and>
         genSource es cs = Inr src \<and> formatSource src = None))"
proof (intro conjI impI)
  assume "2 \<le> length line"
  then show "\<exists>e. Parse line = Inr e"
    using Parse_wellParsed by blast
next
  assume "length line < 2"
  then show "Parse line = Inl SliceOutOfRange"
    by (simp add: Parse_def)
next
  show "(\<exists>p. transformLength e = Inl p) \<longleftrightarrow> hasBadIndex e"
    by (rule transformLength_panics)
next
  show "(\<exists>q. main constRe formatSource lines = Inl q) \<longleftrightarrow>
      (\<exists>l \<in> set (statements constRe lines). length l < 2) \<or>
      (\<exists>l \<in> set (statements constRe lines). \<exists>x. Parse l = Inr x \<and> hasBadIndex x) \<or>
      statements constRe lines = [] \<or>
      (\<exists>x. Parse (hd (statements constRe lines)) = Inr x \<and> length (Expr x) < 2) \<or>
      (\<exists>es cs src. scanLines constRe lines [] [] = Inr (es, cs) \<and>
         genSource es cs = Inr src \<and> formatSource src = None)"
    by (rule main_panics_iff)
qed

text \<open>
  The theorem at the unbalanced line, at the empty line and at the statement
  \<open>(:= T1 xi[a])\<close>, whose index is not a number: the run on it ends without output.
\<close>

theorem job_aborts_exactly_when_witness:
  "(\<exists>e. Parse ''(:= T1 (+ xi[0] xi[1]'' = Inr e) \<and>
   Parse [] = Inl SliceOutOfRange \<and>
   (\<exists>p. transformLength (Expression [] ''xi[a]'' 0 []) = Inl p) \<and>
   (\<exists>q. main constRe_KP5 Some [''(:= T1 xi[a])''] = Inl q)"
proof -
  have a: "2 \<le> length ''(:= T1 (+ xi[0] xi[1]''" by simp
  have b: "length ([] :: string) < 2" by simp
  have c: "hasBadIndex (Expression [] ''xi[a]'' 0 [])"
    by (simp add: suffix_bracket ParseUint_a)
  have d: "(\<exists>l \<in> set (statements constRe_KP5 [''(:= T1 xi[a])'']). length l < 2) \<or>
      (\<exists>l \<in> set (statements constRe_KP5 [''(:= T1 xi[a])'']).
         \<exists>x. Parse l = Inr x \<and> hasBadIndex x) \<or>
      statements constRe_KP5 [''(:= T1 xi[a])''] = [] \<or>
      (\<exists>x. Parse (hd (statements constRe_KP5 [''(:= T1 xi[a])''])) = Inr x \<and>
         length (Expr x) < 2) \<or>
      (\<exists>es cs src. scanLines constRe_KP5 [''(:= T1 xi[a])''] [] [] = Inr (es, cs) \<and>
         genSource es cs = Inr src \<and> Some src = None)"
    by (simp add: statements_def constRe_KP5_def Parse_bad_index suffix_bracket ParseUint_a
        del: One_nat_def)
  show ?thesis
    using job_aborts_exactly_when [THEN conjunct1, THEN mp, OF a]
      job_aborts_exactly_when [THEN conjunct2, THEN conjunct1, THEN mp, OF b]
      job_aborts_exactly_when [THEN conjunct2, THEN conjunct2, THEN conjunct1, THEN iffD2, OF c]
      job_aborts_exactly_when [THEN conjunct2, THEN conjunct2, THEN conjunct2, THEN iffD2, OF d]
    by simp
qed

section \<open>Addition of a subtraction in the participle variant\<close>

text \<open>
  Claim C10. In \<open>Expr.Gen\<close> the flattening of an addition looks at the operator of the
  sub-expression only, not at the number of its own sub-expressions: under a \<open>+\<close> node with
  several sub-expressions, every sub-expression after the first whose operator is \<open>-\<close>
  is appended as its own code, with no \<open>+\<close> token before it and no parentheses around
  it. For a \<open>-\<close> with one sub-expression this gives the code of \<open>a - b\<close>; for a \<open>-\<close>
  with two, the code of \<open>b - c\<close> follows the code of \<open>a\<close> directly.
\<close>

theorem Gen_addition_appends_any_subtraction:
  "(rest \<noteq> [] \<and> generated x lt \<and> list_all2 generated rest cs \<longrightarrow>
      Gen (MkExpr [] ''+'' (x # rest)) =
        Inr (lt @ concat (map2 (\<lambda>sub c. if ExprOp sub = ''-'' then c else JOp ''+'' # c)
                            rest cs))) \<and>
   (generated a ca \<and> generated b cb \<longrightarrow>
      Gen (MkExpr [] ''+'' [a, MkExpr [] ''-'' [b]]) = Inr (ca @ JOp ''-'' # cb)) \<and>
   (generated a ca \<and> generated b cb \<and> generated c cc \<longrightarrow>
      Gen (MkExpr [] ''+'' [a, MkExpr [] ''-'' [b, c]]) = Inr (ca @ cb @ JOp ''-'' # cc))"
proof (intro conjI impI)
  assume "rest \<noteq> [] \<and> generated x lt \<and> list_all2 generated rest cs"
  then show "Gen (MkExpr [] ''+'' (x # rest)) =
      Inr (lt @ concat (map2 (\<lambda>sub c. if ExprOp sub = ''-'' then c else JOp ''+'' # c) rest cs))"
    using Gen_nary [of rest x lt cs "''+''"]
    by (simp add: genOp_def genItems_plus)
next
  assume h: "generated a ca \<and> generated b cb"
  then have "generated (MkExpr [] ''-'' [b]) (JOp ''-'' # cb)"
    using Gen_unary [of b cb "''-''"] by (simp add: generated_def)
  with h show "Gen (MkExpr [] ''+'' [a, MkExpr [] ''-'' [b]]) = Inr (ca @ JOp ''-'' # cb)"
    using Gen_nary [of "[MkExpr [] ''-'' [b]]" a ca "[JOp ''-'' # cb]" "''+''"]
    by (simp add: genOp_def genItems_plus)
next
  assume h: "generated a ca \<and> generated b cb \<and> generated c cc"
  then have "generated (MkExpr [] ''-'' [b, c]) (cb @ JOp ''-'' # cc)"
    using Gen_nary [of "[c]" b cb "[cc]" "''-''"]
    by (simp add: generated_def genOp_def genItems_minus)
  with h show "Gen (MkExpr [] ''+'' [a, MkExpr [] ''-'' [b, c]]) =
      Inr (ca @ cb @ JOp ''-'' # cc)"
    using Gen_nary [of "[MkExpr [] ''-'' [b, c]]" a ca "[cb @ JOp ''-'' # cc]" "''+''"]
    by (simp add: genOp_def genItems_plus)
qed

theorem Gen_addition_appends_any_subtraction_witness:
  "Gen (MkExpr [] ''+'' [MkExpr ''xi[0]'' [] [], MkExpr [] ''-'' [MkExpr ''xi[1]'' [] []]]) =
     Inr [JId ''xi[0]'', JOp ''-'', JId ''xi[1]''] \<and>
   Gen (MkExpr [] ''+'' [MkExpr ''xi[0]'' [] [],
          MkExpr [] ''-'' [MkExpr ''xi[1]'' [] [], MkExpr ''T3'' [] []]]) =
     Inr [JId ''xi[0]'', JId ''xi[1]'', JOp ''-'', JId ''T3''] \<and>
   Gen (MkExpr [] ''+'' [MkExpr ''xi[0]'' [] [], MkExpr ''xi[1]'' [] [],
          MkExpr [] ''-'' [MkExpr ''xi[2]'' [] [], MkExpr ''T3'' [] []]]) =
     Inr [JId ''xi[0]'', JOp ''+'', JId ''xi[1]'', JId ''xi[2]'', JOp ''-'', JId ''T3'']"
proof -
  have a: "generated (MkExpr ''xi[0]'' [] []) [JId ''xi[0]'']"
    and b: "generated (MkExpr ''xi[1]'' [] []) [JId ''xi[1]'']"
    and c: "generated (MkExpr ''T3'' [] []) [JId ''T3'']"
    and d: "generated (MkExpr [] ''-'' [MkExpr ''xi[2]'' [] [], MkExpr ''T3'' [] []])
              [JId ''xi[2]'', JOp ''-'', JId ''T3'']"
    by (simp_all add: generated_def genOp_def)
  have r: "[MkExpr ''xi[1]'' [] [], MkExpr [] ''-'' [MkExpr ''xi[2]'' [] [], MkExpr ''T3'' [] []]] \<noteq> [] \<and>
      generated (MkExpr ''xi[0]'' [] []) [JId ''xi[0]''] \<and>
      list_all2 generated
        [MkExpr ''xi[1]'' [] [], MkExpr [] ''-'' [MkExpr ''xi[2]'' [] [], MkExpr ''T3'' [] []]]
        [[JId ''xi[1]''], [JId ''xi[2]'', JOp ''-'', JId ''T3'']]"
    using a b d by simp
  show ?thesis
    using Gen_addition_appends_any_subtraction [THEN conjunct2, THEN conjunct1, THEN mp, OF conjI, OF a b]
      Gen_addition_appends_any_subtraction [THEN conjunct2, THEN conjunct2, THEN mp, OF conjI, OF a conjI, OF b c]
      Gen_addition_appends_any_subtraction [THEN conjunct1, THEN mp, OF r]
    by simp
qed

section \<open>The generator without statements\<close>

lemma scanLines_only_constants:
  "\<forall>l \<in> set lines. constRe l \<noteq> None \<Longrightarrow>
   \<exists>cs'. scanLines constRe lines es cs = Inr (es, cs')"
  by (induction lines arbitrary: cs) (auto split: option.splits)

lemma genSource_no_expressions: "genSource [] cs = Inl IndexOutOfRange"
  by (simp add: genSource_def signature_def)

lemma signature_defined_iff:
  "(\<exists>s. signature es = Inr s) \<longleftrightarrow> (es \<noteq> [] \<and> 2 \<le> length (Expr (es ! 0)))"
  by (auto simp: signature_def)

lemma Parse_no_value:
  "Parse ''(:= T1)'' = Inr (Expression ''='' [] 0 [Expression [] ''T1'' 0 []])"
  by (simp add: parse_defs)

text \<open>
  Claim C9. When the input yields no statement (every line is a constant declaration,
  or there is no line), \<open>main\<close> ends in an index-out-of-range panic. More generally,
  once the transform length is computed, the generation pass panics that way when there
  is no statement or when the root of the first statement has fewer than two operands;
  the signature is chosen exactly when there is a first statement with two operands.
\<close>

theorem main_without_statements_panics:
  "((\<forall>l \<in> set lines. constRe l \<noteq> None) \<longrightarrow>
      main constRe formatSource lines = Inl IndexOutOfRange) \<and>
   (maxLength 0 es = Inr n \<and> (es = [] \<or> length (Expr (es ! 0)) < 2) \<longrightarrow>
      genSource es cs = Inl IndexOutOfRange) \<and>
   ((\<exists>s. signature es = Inr s) \<longleftrightarrow> (es \<noteq> [] \<and> 2 \<le> length (Expr (es ! 0))))"
proof (intro conjI impI)
  assume "\<forall>l \<in> set lines. constRe l \<noteq> None"
  then obtain cs' where "scanLines constRe lines [] [] = Inr ([], cs')"
    using scanLines_only_constants by blast
  then show "main constRe formatSource lines = Inl IndexOutOfRange"
    by (simp add: main_def genSource_no_expressions)
next
  assume "maxLength 0 es = Inr n \<and> (es = [] \<or> length (Expr (es ! 0)) < 2)"
  then show "genSource es cs = Inl IndexOutOfRange"
    by (auto simp: genSource_def signature_def)
next
  show "(\<exists>s. signature es = Inr s) \<longleftrightarrow> (es \<noteq> [] \<and> 2 \<le> length (Expr (es ! 0)))"
    by (rule signature_defined_iff)
qed

text \<open>
  The theorem at an empty file, at a file of one constant declaration, and at the
  statement \<open>(:= T1)\<close>, whose root has one operand.
\<close>

theorem main_without_statements_panics_witness:
  "main constRe_KP5 Some [] = Inl IndexOutOfRange \<and>
   main constRe_KP5 Some [''DK(KP5, +0.5);''] = Inl IndexOutOfRange \<and>
   Parse ''(:= T1)'' = Inr (Expression ''='' [] 0 [Expression [] ''T1'' 0 []]) \<and>
   genSource [Expression ''='' [] 0 [Expression [] ''T1'' 0 []]] [] = Inl IndexOutOfRange"
proof -
  have a: "\<forall>l \<in> set []. constRe_KP5 l \<noteq> None" by simp
  have b: "\<forall>l \<in> set [''DK(KP5, +0.5);'']. constRe_KP5 l \<noteq> None"
    by (simp add: constRe_KP5_def)
  have c: "maxLength 0 [Expression ''='' [] 0 [Expression [] ''T1'' 0 []]] = Inr 1 \<and>
     ([Expression ''='' [] 0 [Expression [] ''T1'' 0 []]] = [] \<or>
      length (Expr ([Expression ''='' [] 0 [Expression [] ''T1'' 0 []]] ! 0)) < 2)"
    by (simp add: TransformLength_def Max2_def suffix_bracket)
  show ?thesis
    using main_without_statements_panics [THEN conjunct1, THEN mp, OF a]
      main_without_statements_panics [THEN conjunct1, THEN mp, OF b]
      main_without_statements_panics [THEN conjunct2, THEN conjunct1, THEN mp, OF c]
      Parse_no_value
    by simp
qed

end
